theory Spec2Isabelle
  imports Main "HOL-Library.Multiset"
begin

section \<open>Python values and strings\<close>

text \<open>
  A Python \<open>str\<close> is a sequence of Unicode code points, so a string is a list of
  code points (natural numbers), and \<open>len\<close>, slicing and iteration count code points.
  \<open>ascii\<close> writes an ASCII literal of the source as such a list.
\<close>

type_synonym codepoint = nat
type_synonym pystr = "codepoint list"

definition ascii :: "string \<Rightarrow> pystr" where
  "ascii s = map of_char s"

text \<open>
  The first component of the argument tuple of \<open>process_audio_file\<close> is an arbitrary
  Python object. Two shapes matter: an integer (what \<open>main\<close> passes, from
  \<open>enumerate\<close>) and a tuple (what \<open>idx[0]\<close>, \<open>idx[1]\<close> subscript).
\<close>

datatype pyval = PyInt int | PyTuple "pyval list"

datatype py_error = TypeError | IndexError | OSError

subsection \<open>\<open>str.isalnum\<close>, \<open>str.isspace\<close>, \<open>str.strip\<close>, \<open>str.join\<close>\<close>

text \<open>
  \<open>c.isalnum()\<close> follows the Unicode character database: it holds for the ASCII letters
  and digits, and also for letters and numeric characters outside ASCII. The table is
  written out up to U+00FF; for the code points from U+0100 on it is the parameter
  \<open>ucd\<close> (the database is not part of the source).
\<close>

definition ascii_alnum :: "codepoint \<Rightarrow> bool" where
  "ascii_alnum c = ((48 \<le> c \<and> c \<le> 57) \<or> (65 \<le> c \<and> c \<le> 90) \<or> (97 \<le> c \<and> c \<le> 122))"

definition latin1_alnum :: "codepoint \<Rightarrow> bool" where
  "latin1_alnum c =
     (c = 170 \<or> c = 178 \<or> c = 179 \<or> c = 181 \<or> c = 185 \<or> c = 186 \<or>
      c = 188 \<or> c = 189 \<or> c = 190 \<or>
      (192 \<le> c \<and> c \<le> 214) \<or> (216 \<le> c \<and> c \<le> 246) \<or> (248 \<le> c \<and> c \<le> 255))"

definition isalnum :: "(codepoint \<Rightarrow> bool) \<Rightarrow> codepoint \<Rightarrow> bool" where
  "isalnum ucd c =
     (if c < 128 then ascii_alnum c else if c < 256 then latin1_alnum c else ucd c)"

text \<open>The characters \<open>str.strip()\<close> removes: those for which \<open>str.isspace\<close> holds.\<close>

definition isspace :: "codepoint \<Rightarrow> bool" where
  "isspace c =
     ((9 \<le> c \<and> c \<le> 13) \<or> (28 \<le> c \<and> c \<le> 32) \<or> c = 133 \<or> c = 160 \<or> c = 5760 \<or>
      (8192 \<le> c \<and> c \<le> 8202) \<or> c = 8232 \<or> c = 8233 \<or> c = 8239 \<or> c = 8287 \<or>
      c = 12288)"

definition strip :: "pystr \<Rightarrow> pystr" where
  "strip s = rev (dropWhile isspace (rev (dropWhile isspace s)))"

fun join :: "pystr \<Rightarrow> pystr list \<Rightarrow> pystr" where
  "join sep [] = []"
| "join sep [x] = x"
| "join sep (x # y # ys) = x @ sep @ join sep (y # ys)"

subsection \<open>Number formatting and paths\<close>

text \<open>\<open>f"{n:02d}"\<close>: decimal digits, sign-aware, zero-padded to width 2.\<close>

fun decimal :: "nat \<Rightarrow> pystr" where
  "decimal n = (if n < 10 then [48 + n] else decimal (n div 10) @ [48 + n mod 10])"

declare decimal.simps [simp del]

definition format_02d :: "int \<Rightarrow> pystr" where
  "format_02d n =
     (if n < 0 then 45 # decimal (nat (- n))
      else if n < 10 then 48 # decimal (nat n)
      else decimal (nat n))"

text \<open>
  \<open>os.path.splitext(p)[1]\<close> on a POSIX path: the extension starts at the last dot of
  the last path component, unless that component has only leading dots.
\<close>

definition splitext_ext :: "pystr \<Rightarrow> pystr" where
  "splitext_ext p =
     (let name = rev (takeWhile (\<lambda>c. c \<noteq> 47) (rev p));
          stem = dropWhile (\<lambda>c. c = 46) name
      in if 46 \<in> set stem then 46 # rev (takeWhile (\<lambda>c. c \<noteq> 46) (rev name)) else [])"

text \<open>\<open>os.path.join(a, b)\<close> on POSIX.\<close>

definition path_join :: "pystr \<Rightarrow> pystr \<Rightarrow> pystr" where
  "path_join a b =
     (if b \<noteq> [] \<and> hd b = 47 then b
      else if a = [] \<or> last a = 47 then a @ b
      else a @ [47] @ b)"

section \<open>Filename derivation (\<open>process_audio_file\<close>, lines 90 to 91)\<close>

text \<open>
  \<open>c if c.isalnum() or c in ' -_.' else '_'\<close>, for one character, and the comprehension
  over \<open>transcription[:50]\<close>.
\<close>

definition keep_char :: "(codepoint \<Rightarrow> bool) \<Rightarrow> codepoint \<Rightarrow> bool" where
  "keep_char ucd c = (isalnum ucd c \<or> c = 32 \<or> c = 45 \<or> c = 95 \<or> c = 46)"

definition sanitize_char :: "(codepoint \<Rightarrow> bool) \<Rightarrow> codepoint \<Rightarrow> codepoint" where
  "sanitize_char ucd c = (if keep_char ucd c then c else 95)"

definition safe_name :: "(codepoint \<Rightarrow> bool) \<Rightarrow> pystr \<Rightarrow> pystr" where
  "safe_name ucd transcription = map (sanitize_char ucd) (take 50 transcription)"

definition new_name :: "(codepoint \<Rightarrow> bool) \<Rightarrow> int \<Rightarrow> pystr \<Rightarrow> pystr \<Rightarrow> pystr" where
  "new_name ucd i transcription audio_file =
     format_02d (i + 1) @ ascii '' - '' @ safe_name ucd transcription @ splitext_ext audio_file"

text \<open>
  The character set the specification names for the sanitized suffix:
  \<open>[A-Za-z0-9]\<close>, space, hyphen, underscore, period.
\<close>

definition spec_safe_char :: "codepoint \<Rightarrow> bool" where
  "spec_safe_char c = (ascii_alnum c \<or> c = 32 \<or> c = 45 \<or> c = 95 \<or> c = 46)"

text \<open>Reading a formatted number back; used to show that the index prefix is injective.\<close>

definition undecimal :: "pystr \<Rightarrow> nat" where
  "undecimal s = foldl (\<lambda>a c. 10 * a + (c - 48)) 0 s"

definition parse_02d :: "pystr \<Rightarrow> int" where
  "parse_02d s = (if hd s = 45 then - int (undecimal (tl s)) else int (undecimal s))"

section \<open>The environment of one transcription attempt\<close>

text \<open>
  \<open>transcribe_audio\<close> works on the filesystem and calls three libraries (pydub, wave,
  vosk). The filesystem is explicit state: a map from paths to what the file holds. What
  the libraries do in one attempt is a record of outcomes, one field per call that can
  fail or return data; every exception the source catches is a branch on such a field.
  What these functions print is left out.

  A wave file is its header fields and the frames of its data (two bytes each in a mono
  16-bit file): \<open>readframes(8000)\<close> returns the next 8000 frames, fewer at the end of the
  data, and then nothing, which ends the loop.
\<close>

type_synonym frame = "nat list"
type_synonym chunk = "frame list"

record wav =
  nchannels :: nat
  sampwidth :: nat
  framerate :: nat
  frames :: "frame list"

datatype content = Blank | Junk | Wav wav

type_synonym filesystem = "pystr \<rightharpoonup> content"

text \<open>
  The pydub pipeline of \<open>convert_to_wav\<close> (lines 24 to 37): it raises before the target
  is opened (\<open>os.close\<close>, decoding, the filters), or raises in \<open>export\<close> once the target is
  open for writing, or writes the target.
\<close>

datatype pipeline_outcome = DecodeRaises | ExportRaises | Exported content

text \<open>
  \<open>json.loads(r).get('text', '')\<close> for a recognizer result \<open>r\<close>: the parse or the lookup
  raises, or the key is absent, or there is a text.
\<close>

datatype json_text = Unparsable | NoText | Text pystr

datatype engine_call = AcceptWaveform chunk | Result | FinalResult

text \<open>
  A recognizer session is deterministic in the chunks it was fed, so the engine is given
  by functions of the chunks fed so far (the latest last).
\<close>

record attempt_env =
  mkstemp :: "pystr option"
  pipeline :: pipeline_outcome
  recognizer_ok :: bool
  readframes_ok :: "nat \<Rightarrow> bool"
  accept_waveform :: "chunk list \<Rightarrow> bool option"
  result_json :: "chunk list \<Rightarrow> json_text"
  final_json :: "chunk list \<Rightarrow> json_text"
  remove_ok :: bool

section \<open>\<open>convert_to_wav\<close> (lines 16 to 41)\<close>

text \<open>
  \<open>mkstemp env = None\<close>: \<open>tempfile.mkstemp\<close> raises; \<open>Some p\<close>: it creates the empty file
  \<open>p\<close>. Every exception is caught and \<open>None\<close> returned; nothing is removed there.
\<close>

definition convert_to_wav ::
  "attempt_env \<Rightarrow> pystr \<Rightarrow> pystr option \<Rightarrow> filesystem \<Rightarrow> filesystem \<times> pystr option" where
  "convert_to_wav env audio_path target_path fs =
     (let made =
        (case target_path of
           Some (c # cs) \<Rightarrow> Some (c # cs, fs)
         | _ \<Rightarrow> (case mkstemp env of
                  None \<Rightarrow> None
                | Some p \<Rightarrow> Some (p, fs(p \<mapsto> Blank))))
      in case made of
           None \<Rightarrow> (fs, None)
         | Some (target, fs1) \<Rightarrow>
             (case pipeline env of
                DecodeRaises \<Rightarrow> (fs1, None)
              | ExportRaises \<Rightarrow> (fs1(target \<mapsto> Junk), None)
              | Exported c \<Rightarrow> (fs1(target \<mapsto> c), Some target)))"

section \<open>\<open>transcribe_audio\<close> (lines 43 to 79)\<close>

fun fed :: "engine_call list \<Rightarrow> chunk list" where
  "fed [] = []"
| "fed (AcceptWaveform c # calls) = c # fed calls"
| "fed (_ # calls) = fed calls"

text \<open>\<open>json.loads(r).get('text', '').strip()\<close>; \<open>None\<close> when it raises.\<close>

fun stripped_text :: "json_text \<Rightarrow> pystr option" where
  "stripped_text Unparsable = None"
| "stripped_text NoText = Some []"
| "stripped_text (Text s) = Some (strip s)"

text \<open>
  The loop of lines 60 to 63 over the frames not yet read. The state is the log of
  engine calls made so far and \<open>results\<close>. The result is \<open>None\<close> when \<open>readframes\<close>, the
  engine or the JSON handling raises.
\<close>

function stream ::
  "attempt_env \<Rightarrow> frame list \<Rightarrow> engine_call list \<Rightarrow> pystr list \<Rightarrow>
     engine_call list \<times> pystr list option" where
  "stream env rest log results =
     (if \<not> readframes_ok env (length (fed log)) then (log, None)
      else if take 8000 rest = [] then (log, Some results)
      else
        (case accept_waveform env (fed log @ [take 8000 rest]) of
           None \<Rightarrow> (log @ [AcceptWaveform (take 8000 rest)], None)
         | Some False \<Rightarrow>
             stream env (drop 8000 rest) (log @ [AcceptWaveform (take 8000 rest)]) results
         | Some True \<Rightarrow>
             (case stripped_text (result_json env (fed log @ [take 8000 rest])) of
                None \<Rightarrow> (log @ [AcceptWaveform (take 8000 rest), Result], None)
              | Some text \<Rightarrow>
                  stream env (drop 8000 rest)
                    (log @ [AcceptWaveform (take 8000 rest), Result])
                    (if text \<noteq> [] then results @ [text] else results))))"
  by pat_completeness auto
termination
  by (relation "measure (\<lambda>(env, rest, log, results). length rest)") auto

declare stream.simps [simp del]

text \<open>The \<open>with wave.open(...)\<close> block and the return (lines 55 to 68), for an opened file.\<close>

definition recognize :: "attempt_env \<Rightarrow> wav \<Rightarrow> engine_call list \<times> pystr option" where
  "recognize env wave_file =
     (if nchannels wave_file \<noteq> 1 \<or> sampwidth wave_file \<noteq> 2 then ([], None)
      else
        (case stream env (frames wave_file) [] [] of
           (log, None) \<Rightarrow> (log, None)
         | (log, Some results) \<Rightarrow>
             (case stripped_text (final_json env (fed log)) of
                None \<Rightarrow> (log @ [FinalResult], None)
              | Some final_text \<Rightarrow>
                  (log @ [FinalResult],
                   Some (strip (join [32]
                     (if final_text \<noteq> [] then results @ [final_text] else results)))))))"

text \<open>The \<open>try\<close> body (lines 47 to 68), after \<open>convert_to_wav\<close> has returned \<open>temp_wav\<close>.\<close>

definition transcribe_body ::
  "attempt_env \<Rightarrow> pystr option \<Rightarrow> filesystem \<Rightarrow> engine_call list \<times> pystr option" where
  "transcribe_body env temp_wav fs =
     (case temp_wav of
        Some (c # cs) \<Rightarrow>
          (if fs (c # cs) = None then ([], None)
           else if \<not> recognizer_ok env then ([], None)
           else
             (case fs (c # cs) of
                Some (Wav wave_file) \<Rightarrow> recognize env wave_file
              | _ \<Rightarrow> ([], None)))
      | _ \<Rightarrow> ([], None))"

text \<open>The \<open>finally\<close> block (lines 74 to 79); an \<open>OSError\<close> of \<open>os.remove\<close> is swallowed.\<close>

definition cleanup :: "attempt_env \<Rightarrow> pystr option \<Rightarrow> filesystem \<Rightarrow> filesystem" where
  "cleanup env temp_wav fs =
     (case temp_wav of
        Some (c # cs) \<Rightarrow>
          (if fs (c # cs) \<noteq> None \<and> remove_ok env then fs((c # cs) := None) else fs)
      | _ \<Rightarrow> fs)"

definition transcribe_audio ::
  "attempt_env \<Rightarrow> pystr \<Rightarrow> filesystem \<Rightarrow> filesystem \<times> engine_call list \<times> pystr option" where
  "transcribe_audio env audio_path fs =
     (case convert_to_wav env audio_path None fs of
        (fs1, temp_wav) \<Rightarrow>
          (case transcribe_body env temp_wav fs1 of
             (log, r) \<Rightarrow> (cleanup env temp_wav fs1, log, r)))"

section \<open>\<open>process_audio_file\<close> (lines 81 to 95)\<close>

text \<open>\<open>v[k]\<close> and the integer operand of \<open>v + 1\<close>, with the exceptions Python raises.\<close>

definition subscript :: "pyval \<Rightarrow> nat \<Rightarrow> py_error + pyval" where
  "subscript v k =
     (case v of
        PyInt n \<Rightarrow> Inl TypeError
      | PyTuple xs \<Rightarrow> if k < length xs then Inr (xs ! k) else Inl IndexError)"

definition int_operand :: "pyval \<Rightarrow> py_error + int" where
  "int_operand v = (case v of PyInt n \<Rightarrow> Inr n | PyTuple xs \<Rightarrow> Inl TypeError)"

text \<open>
  Line 85 formats \<open>idx[0]+1\<close> and \<open>idx[1]\<close> before the first attempt. \<open>banner\<close> gives
  the integer \<open>idx[0]\<close> when the line passes, and the exception otherwise.
\<close>

definition banner :: "pyval \<Rightarrow> py_error + int" where
  "banner idx =
     (case subscript idx 0 of
        Inl e \<Rightarrow> Inl e
      | Inr v \<Rightarrow>
          (case int_operand v of
             Inl e \<Rightarrow> Inl e
           | Inr i \<Rightarrow> (case subscript idx 1 of Inl e \<Rightarrow> Inl e | Inr n_files \<Rightarrow> Inr i)))"

text \<open>The returned tuple: \<open>idx[0]\<close>, \<open>audio_file\<close>, \<open>new_name\<close> or None, the transcription or None.\<close>

type_synonym task_result = "int \<times> pystr \<times> pystr option \<times> pystr option"

text \<open>What one attempt did: the engine calls it made and what \<open>transcribe_audio\<close> returned.\<close>

type_synonym attempt = "engine_call list \<times> pystr option"

text \<open>
  The loop \<open>for attempt in range(3)\<close> (lines 87 to 95) over the attempt numbers still to
  run. A transcription that is \<open>None\<close> or empty is falsy. The attempts made are returned
  with the result.
\<close>

fun attempts ::
  "(codepoint \<Rightarrow> bool) \<Rightarrow> (nat \<Rightarrow> attempt_env) \<Rightarrow> int \<Rightarrow> pystr \<Rightarrow> pystr \<Rightarrow> nat list \<Rightarrow>
     filesystem \<Rightarrow> filesystem \<times> attempt list \<times> task_result" where
  "attempts ucd envs i audio_file audio_path [] fs = (fs, [], (i, audio_file, None, None))"
| "attempts ucd envs i audio_file audio_path (attempt # todo) fs =
     (case transcribe_audio (envs attempt) audio_path fs of
        (fs1, log, transcription) \<Rightarrow>
          (case transcription of
             Some (c # cs) \<Rightarrow>
               (fs1, [(log, transcription)],
                (i, audio_file, Some (new_name ucd i (c # cs) audio_file), transcription))
           | _ \<Rightarrow>
               (case attempts ucd envs i audio_file audio_path todo fs1 of
                  (fs2, made, r) \<Rightarrow> (fs2, (log, transcription) # made, r))))"

definition process_audio_file ::
  "(codepoint \<Rightarrow> bool) \<Rightarrow> (nat \<Rightarrow> attempt_env) \<Rightarrow> pyval \<Rightarrow> pystr \<Rightarrow> pystr \<Rightarrow> filesystem \<Rightarrow>
     filesystem \<times> attempt list \<times> (py_error + task_result)" where
  "process_audio_file ucd envs idx audio_file audio_dir fs =
     (case banner idx of
        Inl e \<Rightarrow> (fs, [], Inl e)
      | Inr i \<Rightarrow>
          (case attempts ucd envs i audio_file (path_join audio_dir audio_file) [0, 1, 2] fs of
             (fs1, made, r) \<Rightarrow> (fs1, made, Inr r)))"

text \<open>An attempt counts as failed when it gives \<open>None\<close> or the empty transcript.\<close>

fun failed :: "attempt \<Rightarrow> bool" where
  "failed (log, Some (c # cs)) = False"
| "failed (log, r) = True"

section \<open>\<open>main\<close> (lines 97 to 165)\<close>

datatype message =
  ModelLoadFailed | NoAudioFiles | Renamed pystr | RenameFailed pystr | Saved nat
  | NoTranscriptions

datatype event =
  Makedirs pystr | Listdir pystr | Submitted nat pystr | Rename pystr pystr
  | WriteFile pystr "pystr list" | Print message

text \<open>
  What the world outside \<open>main\<close> does in one run. \<open>finish_time\<close> is when the future of
  the task with that ordinal index completes: \<open>as_completed\<close> yields the futures by it,
  so every completion order is the order of some \<open>finish_time\<close>. \<open>ucd_alnum\<close> and
  \<open>str_lower\<close> are the Unicode tables behind \<open>str.isalnum\<close> and \<open>str.lower\<close>.
\<close>

record main_env =
  ucd_alnum :: "codepoint \<Rightarrow> bool"
  str_lower :: "pystr \<Rightarrow> pystr"
  base_dir :: pystr
  makedirs_ok :: "pystr \<Rightarrow> bool"
  model_loads :: bool
  listdir :: "pystr list option"
  isfile :: "pystr \<Rightarrow> bool"
  timestamp :: pystr
  generated_on :: pystr
  task_env :: "nat \<Rightarrow> nat \<Rightarrow> attempt_env"
  finish_time :: "nat \<Rightarrow> nat"
  rename_ok :: "pystr \<Rightarrow> pystr \<Rightarrow> bool"
  open_ok :: bool

definition endswith :: "pystr \<Rightarrow> pystr \<Rightarrow> bool" where
  "endswith s e = (length e \<le> length s \<and> drop (length s - length e) s = e)"

definition audio_ext :: "pystr list" where
  "audio_ext = [ascii ''.m4a'', ascii ''.mp3'', ascii ''.wav'', ascii ''.ogg'', ascii ''.flac'']"

text \<open>The comprehension of lines 112 to 115.\<close>

definition audio_files :: "main_env \<Rightarrow> pystr \<Rightarrow> pystr list \<Rightarrow> pystr list" where
  "audio_files env audio_dir names =
     filter (\<lambda>f. isfile env (path_join audio_dir f) \<and>
                 list_ex (endswith (str_lower env f)) audio_ext) names"

text \<open>
  The submitted tasks (lines 134 to 140), each with its ordinal index \<open>i\<close> as \<open>idx\<close>.
  A task touches no file but its own temporary one, so the tasks are run one after the
  other on the filesystem. A future holds what its task returned or raised.
\<close>

fun run_tasks ::
  "main_env \<Rightarrow> pystr \<Rightarrow> (nat \<times> pystr) list \<Rightarrow> filesystem \<Rightarrow>
     filesystem \<times> (py_error + task_result) list" where
  "run_tasks env audio_dir [] fs = (fs, [])"
| "run_tasks env audio_dir ((i, f) # tasks) fs =
     (case process_audio_file (ucd_alnum env) (task_env env i) (PyInt (int i)) f audio_dir fs of
        (fs1, made, future) \<Rightarrow>
          (case run_tasks env audio_dir tasks fs1 of
             (fs2, futures) \<Rightarrow> (fs2, future # futures)))"

text \<open>
  The loop over \<open>as_completed(futures)\<close> (lines 142 to 154), over the futures in the order
  they complete. \<open>future.result()\<close> raises what the task raised. The state is \<open>results\<close>
  and the events so far.
\<close>

fun collect ::
  "main_env \<Rightarrow> pystr \<Rightarrow> (py_error + task_result) list \<Rightarrow> (int \<times> pystr) list \<Rightarrow> event list \<Rightarrow>
     event list \<times> (py_error + (int \<times> pystr) list)" where
  "collect env audio_dir [] results evs = (evs, Inr results)"
| "collect env audio_dir (Inl e # futures) results evs = (evs, Inl e)"
| "collect env audio_dir (Inr (idx, orig_name, derived, transcription) # futures) results evs =
     (case transcription of
        Some (c # cs) \<Rightarrow>
          (let results1 = results @ [(idx, format_02d (idx + 1) @ ascii ''. '' @ (c # cs))]
           in case derived of
                Some (d # ds) \<Rightarrow>
                  (if rename_ok env (path_join audio_dir orig_name) (path_join audio_dir (d # ds))
                   then collect env audio_dir futures results1
                          (evs @ [Rename (path_join audio_dir orig_name)
                                    (path_join audio_dir (d # ds)),
                                  Print (Renamed (d # ds))])
                   else collect env audio_dir futures results1
                          (evs @ [Print (RenameFailed orig_name)]))
              | _ \<Rightarrow> collect env audio_dir futures results1 evs)
      | _ \<Rightarrow> collect env audio_dir futures results evs)"

text \<open>The lines written for the results (lines 161 to 162), one \<open>f.write\<close> each.\<close>

definition body_lines :: "(int \<times> pystr) list \<Rightarrow> pystr list" where
  "body_lines results = map (\<lambda>(i, line). line @ [10, 10]) (sort_key fst results)"

definition header_line :: pystr where
  "header_line =
     ascii ''this is a '' @ [34] @ ascii ''Horal History Project'' @ [34] @
     ascii '' from the class '' @ [34] @ ascii ''SSN103'' @ [34] @ ascii '' class'' @ [10, 10]"

text \<open>Lines 157 to 165. \<open>open\<close> may raise; nothing catches it.\<close>

definition write_results ::
  "main_env \<Rightarrow> pystr \<Rightarrow> (int \<times> pystr) list \<Rightarrow> event list \<times> (py_error + unit)" where
  "write_results env transcript_file results =
     (if results \<noteq> [] then
        (if open_ok env then
           ([WriteFile transcript_file
               (header_line # (ascii ''Generated on: '' @ generated_on env @ [10, 10]) #
                body_lines results),
             Print (Saved (length results))], Inr ())
         else ([], Inl OSError))
      else ([Print NoTranscriptions], Inr ()))"

text \<open>
  Lines 122 to 165, for a non-empty list of audio files. The pool is left, and so every
  task has run, before an exception of \<open>future.result()\<close> leaves \<open>main\<close>.
\<close>

definition process_files ::
  "main_env \<Rightarrow> pystr \<Rightarrow> pystr list \<Rightarrow> filesystem \<Rightarrow> filesystem \<times> event list \<times> (py_error + unit)" where
  "process_files env audio_dir files fs =
     (let transcripts_dir = path_join (base_dir env) (ascii ''transcripts'');
          transcript_file =
            path_join transcripts_dir (ascii ''transcript_'' @ timestamp env @ ascii ''.txt'')
      in if \<not> makedirs_ok env transcripts_dir then (fs, [], Inl OSError)
         else
           (case run_tasks env audio_dir (enumerate 0 files) fs of
              (fs1, futures) \<Rightarrow>
                (case collect env audio_dir
                        (map snd (sort_key (\<lambda>(i, future). finish_time env i)
                                    (enumerate 0 futures)))
                        []
                        (Makedirs transcripts_dir # map (\<lambda>(i, f). Submitted i f) (enumerate 0 files))
                 of
                   (evs, Inl e) \<Rightarrow> (fs1, evs, Inl e)
                 | (evs, Inr results) \<Rightarrow>
                     (case write_results env transcript_file results of
                        (evs1, r) \<Rightarrow> (fs1, evs @ evs1, r)))))"

definition main :: "main_env \<Rightarrow> filesystem \<Rightarrow> filesystem \<times> event list \<times> (py_error + unit)" where
  "main env fs =
     (let audio_dir = path_join (base_dir env) (ascii ''audio'')
      in if \<not> makedirs_ok env audio_dir then (fs, [], Inl OSError)
         else if \<not> model_loads env then
           (fs, [Makedirs audio_dir, Print ModelLoadFailed], Inr ())
         else
           (case listdir env of
              None \<Rightarrow> (fs, [Makedirs audio_dir, Listdir audio_dir], Inl OSError)
            | Some names \<Rightarrow>
                (if audio_files env audio_dir names = [] then
                   (fs, [Makedirs audio_dir, Listdir audio_dir, Print NoAudioFiles], Inr ())
                 else
                   (case process_files env audio_dir (audio_files env audio_dir names) fs of
                      (fs1, evs, r) \<Rightarrow>
                        (fs1, [Makedirs audio_dir, Listdir audio_dir] @ evs, r)))))"

text \<open>
  Lines 167 to 168 run \<open>main()\<close> as the script: the interpreter exits with status 0 when
  \<open>main\<close> returns and with status 1 when an exception leaves it.
\<close>

definition exit_status :: "main_env \<Rightarrow> filesystem \<Rightarrow> nat" where
  "exit_status env fs = (case main env fs of (fs1, evs, Inl e) \<Rightarrow> 1 | (fs1, evs, Inr u) \<Rightarrow> 0)"

section \<open>Notions used to state the properties\<close>

text \<open>
  What an attempt in environment \<open>env\<close> gives besides the filesystem. The attempt writes
  its temporary file before it reads it, so this does not depend on the filesystem it
  starts from (lemma \<open>transcribe_audio_outcome\<close>).
\<close>

definition outcome :: "attempt_env \<Rightarrow> pystr \<Rightarrow> attempt" where
  "outcome env audio_path = snd (transcribe_audio env audio_path Map.empty)"

text \<open>A sequence of attempts up to and including the first that succeeds.\<close>

fun upto_success :: "attempt list \<Rightarrow> attempt list" where
  "upto_success [] = []"
| "upto_success (a # as) = (if failed a then a # upto_success as else [a])"

text \<open>The result tuple that belongs to the attempts made: decided by the last one.\<close>

definition result_of :: "(codepoint \<Rightarrow> bool) \<Rightarrow> int \<Rightarrow> pystr \<Rightarrow> attempt list \<Rightarrow> task_result" where
  "result_of ucd i audio_file made =
     (case (if made = [] then None else snd (last made)) of
        Some (c # cs) \<Rightarrow> (i, audio_file, Some (new_name ucd i (c # cs) audio_file), Some (c # cs))
      | _ \<Rightarrow> (i, audio_file, None, None))"

subsection \<open>The recognizer's contract, in the specification's words\<close>

text \<open>
  The canonical audio cut into chunks of \<open>n\<close> frames; whether reading and the engine get
  through a sequence of chunks without raising (\<open>h\<close> are the chunks fed before); the text
  recognized for each chunk (empty when the engine signals no utterance boundary), the
  engine calls that belong to the chunks, and the transcript: the non-empty texts of the
  chunks in read order and then the non-empty final text, joined with spaces and trimmed.
\<close>

function chunks_of :: "nat \<Rightarrow> 'a list \<Rightarrow> 'a list list" where
  "chunks_of n xs = (if n = 0 \<or> xs = [] then [] else take n xs # chunks_of n (drop n xs))"
  by pat_completeness auto
termination
  by (relation "measure (\<lambda>(n, xs). length xs)") auto

declare chunks_of.simps [simp del]

fun engine_runs :: "attempt_env \<Rightarrow> chunk list \<Rightarrow> chunk list \<Rightarrow> bool" where
  "engine_runs env h [] = (readframes_ok env (length h) \<and> final_json env h \<noteq> Unparsable)"
| "engine_runs env h (c # cs) =
     (readframes_ok env (length h) \<and> accept_waveform env (h @ [c]) \<noteq> None \<and>
      (accept_waveform env (h @ [c]) \<noteq> Some True \<or> result_json env (h @ [c]) \<noteq> Unparsable) \<and>
      engine_runs env (h @ [c]) cs)"

fun text_or_empty :: "json_text \<Rightarrow> pystr" where
  "text_or_empty (Text s) = strip s"
| "text_or_empty j = []"

fun chunk_texts :: "attempt_env \<Rightarrow> chunk list \<Rightarrow> chunk list \<Rightarrow> pystr list" where
  "chunk_texts env h [] = []"
| "chunk_texts env h (c # cs) =
     (if accept_waveform env (h @ [c]) = Some True then text_or_empty (result_json env (h @ [c]))
      else []) # chunk_texts env (h @ [c]) cs"

fun calls_for :: "attempt_env \<Rightarrow> chunk list \<Rightarrow> chunk list \<Rightarrow> engine_call list" where
  "calls_for env h [] = []"
| "calls_for env h (c # cs) =
     (if accept_waveform env (h @ [c]) = Some True then [AcceptWaveform c, Result]
      else [AcceptWaveform c]) @ calls_for env (h @ [c]) cs"

definition spec_transcript :: "attempt_env \<Rightarrow> chunk list \<Rightarrow> pystr" where
  "spec_transcript env chunks =
     strip (join [32] (filter (\<lambda>t. t \<noteq> [])
       (chunk_texts env [] chunks @ [text_or_empty (final_json env chunks)])))"

subsection \<open>The transcript\<close>

text \<open>
  The entry a task result contributes to \<open>results\<close> (none when its transcript is \<open>None\<close> or
  empty), and the entries of a sequence of task results.
\<close>

fun transcript_entry :: "task_result \<Rightarrow> (int \<times> pystr) list" where
  "transcript_entry (i, f, n, Some (c # cs)) = [(i, format_02d (i + 1) @ ascii ''. '' @ (c # cs))]"
| "transcript_entry r = []"

definition collected :: "task_result list \<Rightarrow> (int \<times> pystr) list" where
  "collected completed = concat (map transcript_entry completed)"

subsection \<open>Example environments\<close>

text \<open>
  A recording that converts and is recognized as "hello world", a corrupt one whose
  decoding raises, and a silent one with an empty transcript.
\<close>

definition speech_wav :: wav where
  "speech_wav =
     \<lparr>nchannels = 1, sampwidth = 2, framerate = 16000, frames = [[0, 0], [1, 0], [2, 0]]\<rparr>"

definition speech_env :: attempt_env where
  "speech_env =
     \<lparr>mkstemp = Some (ascii ''/tmp/tmp1.wav''), pipeline = Exported (Wav speech_wav),
      recognizer_ok = True, readframes_ok = (\<lambda>k. True),
      accept_waveform = (\<lambda>h. Some False), result_json = (\<lambda>h. NoText),
      final_json = (\<lambda>h. Text (ascii ''hello world'')), remove_ok = True\<rparr>"

definition corrupt_env :: attempt_env where
  "corrupt_env = speech_env\<lparr>pipeline := DecodeRaises\<rparr>"

definition silence_env :: attempt_env where
  "silence_env = speech_env\<lparr>final_json := (\<lambda>h. Text [])\<rparr>"

text \<open>
  Two complete chunks of 8000 frames with an utterance boundary after the first; a stereo
  export; an export at 8000 Hz; an attempt whose \<open>os.remove\<close> raises; an attempt whose
  recognizer cannot be created.
\<close>

definition two_chunk_wav :: wav where
  "two_chunk_wav =
     \<lparr>nchannels = 1, sampwidth = 2, framerate = 16000,
      frames = replicate 8000 [0, 0] @ replicate 8000 [7, 0]\<rparr>"

definition two_chunk_env :: attempt_env where
  "two_chunk_env =
     \<lparr>mkstemp = Some (ascii ''/tmp/tmp1.wav''), pipeline = Exported (Wav two_chunk_wav),
      recognizer_ok = True, readframes_ok = (\<lambda>k. True),
      accept_waveform = (\<lambda>h. Some (length h = 1)),
      result_json = (\<lambda>h. Text (ascii '' hello '')),
      final_json = (\<lambda>h. Text (ascii ''world'')), remove_ok = True\<rparr>"

definition stereo_env :: attempt_env where
  "stereo_env = speech_env\<lparr>pipeline := Exported (Wav (speech_wav\<lparr>nchannels := 2\<rparr>))\<rparr>"

definition lowrate_env :: attempt_env where
  "lowrate_env = speech_env\<lparr>pipeline := Exported (Wav (speech_wav\<lparr>framerate := 8000\<rparr>))\<rparr>"

definition stuck_env :: attempt_env where
  "stuck_env = speech_env\<lparr>remove_ok := False\<rparr>"

definition no_engine_env :: attempt_env where
  "no_engine_env = speech_env\<lparr>recognizer_ok := False\<rparr>"

text \<open>No code point from U+0100 on counts as alphanumeric: enough for ASCII examples.\<close>

definition no_wide_alnum :: "codepoint \<Rightarrow> bool" where
  "no_wide_alnum c = False"

text \<open>Two failing attempts and then a good one; an \<open>(index, total)\<close> pair as \<open>idx\<close>.\<close>

definition flaky_envs :: "nat \<Rightarrow> attempt_env" where
  "flaky_envs k = (if k < 2 then corrupt_env else speech_env)"

definition pair_idx :: "int \<Rightarrow> pyval" where
  "pair_idx i = PyTuple [PyInt i, PyInt 3]"

text \<open>
  A run of \<open>main\<close> on a directory with one audio file, the same run with a model that
  fails to load, and three task results.
\<close>

definition example_run :: main_env where
  "example_run =
     \<lparr>ucd_alnum = no_wide_alnum, str_lower = (\<lambda>s. s), base_dir = ascii ''/home/u'',
      makedirs_ok = (\<lambda>d. True), model_loads = True,
      listdir = Some [ascii ''a.wav'', ascii ''notes.txt''], isfile = (\<lambda>p. True),
      timestamp = ascii ''20240101_120000'', generated_on = ascii ''2024-01-01 12:00:00'',
      task_env = (\<lambda>i k. speech_env), finish_time = (\<lambda>i. 10 - i),
      rename_ok = (\<lambda>a b. True), open_ok = True\<rparr>"

definition no_model_run :: main_env where
  "no_model_run = example_run\<lparr>model_loads := False\<rparr>"

definition example_results :: "task_result list" where
  "example_results =
     [(0, ascii ''a.wav'', Some (ascii ''01 - hi.wav''), Some (ascii ''hi'')),
      (1, ascii ''b.mp3'', None, None),
      (2, ascii ''c.ogg'', Some (ascii ''03 - yo.ogg''), Some (ascii ''yo''))]"

section \<open>Properties of the filename derivation\<close>

lemma keep_sanitize_char: "keep_char ucd (sanitize_char ucd c)"
  by (simp add: sanitize_char_def keep_char_def isalnum_def ascii_alnum_def)

lemma sanitize_char_idem: "sanitize_char ucd (sanitize_char ucd c) = sanitize_char ucd c"
  using keep_sanitize_char [of ucd c] by (simp add: sanitize_char_def)

lemma safe_name_idem: "safe_name ucd (safe_name ucd t) = safe_name ucd t"
  by (simp add: safe_name_def sanitize_char_idem o_def)

lemma keep_char_ascii: "c < 128 \<Longrightarrow> keep_char ucd c = spec_safe_char c"
  by (simp add: keep_char_def spec_safe_char_def isalnum_def)

subsection \<open>The index prefix\<close>

lemma decimal_digits: "c \<in> set (decimal n) \<Longrightarrow> 48 \<le> c \<and> c \<le> 57"
proof (induction n rule: decimal.induct)
  case (1 n)
  show ?case
  proof (cases "n < 10")
    case True
    with "1.prems" show ?thesis by (simp add: decimal.simps [of n])
  next
    case False
    with "1.prems" "1.IH" show ?thesis
      by (auto simp: decimal.simps [of n])
  qed
qed

lemma decimal_nonempty: "decimal n \<noteq> []"
  by (subst decimal.simps) simp

lemma undecimal_snoc: "undecimal (s @ [c]) = 10 * undecimal s + (c - 48)"
  by (simp add: undecimal_def)

lemma undecimal_decimal: "undecimal (decimal n) = n"
proof (induction n rule: decimal.induct)
  case (1 n)
  show ?case
  proof (cases "n < 10")
    case True
    then show ?thesis by (simp add: decimal.simps [of n] undecimal_def)
  next
    case False
    with "1.IH" show ?thesis
      by (simp add: decimal.simps [of n] undecimal_snoc)
  qed
qed

lemma undecimal_zero_Cons: "undecimal (48 # s) = undecimal s"
  by (simp add: undecimal_def)

lemma hd_decimal_digit: "48 \<le> hd (decimal n)"
proof -
  have "hd (decimal n) \<in> set (decimal n)"
    using decimal_nonempty by (rule hd_in_set)
  then have "48 \<le> hd (decimal n) \<and> hd (decimal n) \<le> 57"
    by (rule decimal_digits)
  then show ?thesis by (rule conjunct1)
qed

lemma parse_format_02d: "parse_02d (format_02d n) = n"
proof -
  have "hd (decimal (nat n)) \<noteq> 45"
    using hd_decimal_digit [of "nat n"] by simp
  then show ?thesis
    by (simp add: parse_02d_def format_02d_def undecimal_decimal undecimal_zero_Cons)
qed

lemma format_02d_inj:
  assumes "format_02d m = format_02d n"
  shows "m = n"
proof -
  have "m = parse_02d (format_02d m)" by (simp only: parse_format_02d)
  also have "\<dots> = parse_02d (format_02d n)" by (simp only: assms)
  also have "\<dots> = n" by (simp only: parse_format_02d)
  finally show ?thesis .
qed

lemma format_02d_no_space: "32 \<notin> set (format_02d n)"
  using decimal_digits [of 32] by (auto simp: format_02d_def)

lemma format_02d_nonempty: "format_02d n \<noteq> []"
  by (simp add: format_02d_def decimal_nonempty)

lemma format_02d_no_slash: "hd (format_02d n) \<noteq> 47"
  using hd_decimal_digit [of "nat n"] by (simp add: format_02d_def)

lemma prefix_before_sep:
  assumes "xs @ a # r = ys @ a # s" and "a \<notin> set xs" and "a \<notin> set ys"
  shows "xs = ys"
proof -
  have "\<forall>x\<in>set xs. x \<noteq> a" and "\<forall>x\<in>set ys. x \<noteq> a"
    using assms(2,3) by auto
  then have "takeWhile (\<lambda>c. c \<noteq> a) (xs @ a # r) = xs"
    and "takeWhile (\<lambda>c. c \<noteq> a) (ys @ a # s) = ys"
    by simp_all
  then show ?thesis using assms(1) by simp
qed

lemma new_name_index:
  assumes eq: "new_name ucd i t f = new_name ucd j t' f'"
  shows "i = j"
proof -
  have "format_02d (i + 1) = format_02d (j + 1)"
    using eq format_02d_no_space [of "i + 1"] format_02d_no_space [of "j + 1"]
    by (auto simp: new_name_def ascii_def intro: prefix_before_sep)
  then show "i = j" using format_02d_inj by fastforce
qed

lemma new_name_relative: "new_name ucd i t f \<noteq> [] \<and> hd (new_name ucd i t f) \<noteq> 47"
  using format_02d_nonempty [of "i + 1"] format_02d_no_slash [of "i + 1"]
  by (simp add: new_name_def)

lemma path_join_inj:
  "b \<noteq> [] \<and> hd b \<noteq> 47 \<Longrightarrow> c \<noteq> [] \<and> hd c \<noteq> 47 \<Longrightarrow> path_join a b = path_join a c \<Longrightarrow> b = c"
  by (simp add: path_join_def split: if_splits)

lemma new_name_hello:
  "new_name no_wide_alnum 0 (ascii ''hello world'') (ascii ''a.wav'') =
     ascii ''01 - hello world.wav''"
  by code_simp

lemma new_name_hello_second:
  "new_name no_wide_alnum 1 (ascii ''hello world'') (ascii ''b.mp3'') =
     ascii ''02 - hello world.mp3''"
  by code_simp

lemma hello_nonempty: "ascii ''hello world'' \<noteq> []"
  by (simp add: ascii_def)

text \<open>
  Claim C6, as amended. The sanitized suffix has the length of the first 50 characters of
  the transcript; each of its characters is the transcript's character when
  \<open>str.isalnum\<close> holds for it or it is a space, hyphen, underscore or period, and an
  underscore otherwise; so each character is alphanumeric in the sense of \<open>str.isalnum\<close>
  (which holds for letters and digits outside ASCII too) or one of those four. When the
  first 50 characters of the transcript are ASCII, every character of the suffix is one
  of \<open>[A-Za-z0-9]\<close>, space, hyphen, underscore, period.
\<close>

theorem safe_name_chars:
  "length (safe_name ucd t) = min 50 (length t) \<and>
   (\<forall>k<length (safe_name ucd t).
      safe_name ucd t ! k =
        (if isalnum ucd (t ! k) \<or> t ! k = 32 \<or> t ! k = 45 \<or> t ! k = 95 \<or> t ! k = 46
         then t ! k else 95)) \<and>
   (\<forall>c\<in>set (safe_name ucd t). isalnum ucd c \<or> c = 32 \<or> c = 45 \<or> c = 95 \<or> c = 46) \<and>
   ((\<forall>c\<in>set (take 50 t). c < 128) \<longrightarrow> (\<forall>c\<in>set (safe_name ucd t). spec_safe_char c))"
proof -
  have len: "length (safe_name ucd t) = min 50 (length t)"
    by (simp add: safe_name_def min.commute)
  have nth: "\<forall>k<length (safe_name ucd t).
      safe_name ucd t ! k =
        (if isalnum ucd (t ! k) \<or> t ! k = 32 \<or> t ! k = 45 \<or> t ! k = 95 \<or> t ! k = 46
         then t ! k else 95)"
    by (simp add: safe_name_def sanitize_char_def keep_char_def)
  have kept: "\<forall>c\<in>set (safe_name ucd t). isalnum ucd c \<or> c = 32 \<or> c = 45 \<or> c = 95 \<or> c = 46"
    using keep_sanitize_char [of ucd] by (auto simp: safe_name_def keep_char_def)
  have ascii_case: "(\<forall>c\<in>set (take 50 t). c < 128) \<longrightarrow> (\<forall>c\<in>set (safe_name ucd t). spec_safe_char c)"
  proof (intro impI ballI)
    fix c assume a: "\<forall>c\<in>set (take 50 t). c < 128" and c: "c \<in> set (safe_name ucd t)"
    from c obtain x where x: "x \<in> set (take 50 t)" "c = sanitize_char ucd x"
      by (auto simp: safe_name_def)
    from a x(1) have "x < 128" by blast
    then have "c < 128" using x(2) by (simp add: sanitize_char_def)
    moreover have "keep_char ucd c" using x(2) by (simp add: keep_sanitize_char)
    ultimately show "spec_safe_char c" by (simp add: keep_char_ascii)
  qed
  from len nth kept ascii_case show ?thesis by blast
qed

theorem safe_name_chars_witness:
  "safe_name no_wide_alnum (ascii ''Hi, there! 1/2'') = ascii ''Hi_ there_ 1_2'' \<and>
   list_all spec_safe_char (safe_name no_wide_alnum (ascii ''Hi, there! 1/2''))"
proof -
  have ev: "safe_name no_wide_alnum (ascii ''Hi, there! 1/2'') = ascii ''Hi_ there_ 1_2''"
    by code_simp
  have "\<forall>c\<in>set (take 50 (ascii ''Hi, there! 1/2'')). c < 128"
    by (simp add: ascii_def)
  with safe_name_chars [of no_wide_alnum "ascii ''Hi, there! 1/2''"]
  have "\<forall>c\<in>set (safe_name no_wide_alnum (ascii ''Hi, there! 1/2'')). spec_safe_char c"
    by blast
  then have "list_all spec_safe_char (safe_name no_wide_alnum (ascii ''Hi, there! 1/2''))"
    by (simp only: list_all_iff)
  with ev show ?thesis by simp
qed

text \<open>
  Claim C6 as stated does not hold: \<open>str.isalnum\<close> holds for U+00E9 (a Latin small
  letter e with acute), so the sanitizer keeps it, and it is none of \<open>[A-Za-z0-9]\<close>,
  space, hyphen, underscore, period.
\<close>

theorem safe_name_keeps_letter_outside_ascii:
  "safe_name no_wide_alnum [233] = [233] \<and> \<not> spec_safe_char 233"
  by (simp add: safe_name_def sanitize_char_def keep_char_def isalnum_def latin1_alnum_def
      spec_safe_char_def ascii_alnum_def)

text \<open>
  Claim C9. The sanitizer is idempotent: replacing the characters of a string twice
  gives what replacing them once gives, for the character replacement alone and for
  the replacement after the cut to 50 characters.
\<close>

theorem sanitizer_idempotent:
  "map (sanitize_char ucd) (map (sanitize_char ucd) s) = map (sanitize_char ucd) s \<and>
   safe_name ucd (safe_name ucd s) = safe_name ucd s"
  by (simp add: safe_name_idem sanitize_char_idem o_def)

section \<open>Properties of the retry loop\<close>

lemma transcribe_audio_outcome: "snd (transcribe_audio env p fs) = outcome env p"
  by (auto simp: outcome_def transcribe_audio_def convert_to_wav_def transcribe_body_def
      split: option.splits pipeline_outcome.splits list.splits content.splits prod.splits)

lemma failed_iff: "failed (log, tr) = (tr = None \<or> tr = Some [])"
  by (cases tr; cases "the tr") auto

lemma attempts_made:
  "attempts ucd envs i f p todo fs = (fs', made, r) \<Longrightarrow>
     made = upto_success (map (\<lambda>k. outcome (envs k) p) todo) \<and> r = result_of ucd i f made"
proof (induction todo arbitrary: fs fs' made r)
  case Nil
  then show ?case by (simp add: result_of_def)
next
  case (Cons a todo)
  obtain fs1 log tr where t: "transcribe_audio (envs a) p fs = (fs1, log, tr)"
    by (cases "transcribe_audio (envs a) p fs") auto
  then have o: "outcome (envs a) p = (log, tr)"
    using transcribe_audio_outcome [of "envs a" p fs] by simp
  show ?case
  proof (cases "failed (log, tr)")
    case False
    then obtain c cs where tr: "tr = Some (c # cs)"
      by (cases tr; cases "the tr") auto
    with Cons.prems t o show ?thesis by (auto simp: result_of_def)
  next
    case True
    obtain fs2 made2 r2 where rec: "attempts ucd envs i f p todo fs1 = (fs2, made2, r2)"
      by (cases "attempts ucd envs i f p todo fs1") auto
    from Cons.IH [OF rec] have ih: "made2 = upto_success (map (\<lambda>k. outcome (envs k) p) todo)"
      "r2 = result_of ucd i f made2" by simp_all
    from True have none: "tr = None \<or> tr = Some []" by (simp add: failed_iff)
    with Cons.prems t rec have m: "made = (log, tr) # made2" "r = r2"
      by (auto split: option.splits list.splits)
    have "result_of ucd i f ((log, tr) # made2) = result_of ucd i f made2"
      using none by (auto simp: result_of_def)
    with m ih o True show ?thesis by simp
  qed
qed

lemma process_audio_file_int:
  "process_audio_file ucd envs (PyInt n) f d fs = (fs, [], Inl TypeError)"
  by (simp add: process_audio_file_def banner_def subscript_def)

lemma banner_cases: "banner idx = Inr i \<longleftrightarrow> (\<exists>v vs. idx = PyTuple (PyInt i # v # vs))"
  apply (cases idx)
   apply (simp add: banner_def subscript_def)
  subgoal for xs
    apply (cases xs)
     apply (simp add: banner_def subscript_def)
    subgoal for x ys
      apply (cases x; cases ys)
         apply (auto simp: banner_def subscript_def int_operand_def)
      done
    done
  done

subsection \<open>The example environments, evaluated\<close>

lemma outcome_exported:
  assumes "mkstemp env = Some (c # cs)" and "pipeline env = Exported (Wav w)"
    and "recognizer_ok env"
  shows "outcome env p = recognize env w"
  using assms
  by (simp add: outcome_def transcribe_audio_def convert_to_wav_def transcribe_body_def)

lemma tmp1_path: "ascii ''/tmp/tmp1.wav'' = 47 # ascii ''tmp/tmp1.wav''"
  by (simp add: ascii_def)

lemma recognize_speech:
  "recognize speech_env speech_wav =
     ([AcceptWaveform (frames speech_wav), FinalResult], Some (ascii ''hello world''))"
  by (simp add: recognize_def stream.simps speech_env_def speech_wav_def strip_def
      isspace_def ascii_def)

lemma recognize_silence:
  "recognize silence_env speech_wav =
     ([AcceptWaveform (frames speech_wav), FinalResult], Some [])"
  by (simp add: recognize_def stream.simps silence_env_def speech_env_def speech_wav_def
      strip_def)

lemma outcome_speech:
  "outcome speech_env p =
     ([AcceptWaveform (frames speech_wav), FinalResult], Some (ascii ''hello world''))"
proof -
  have "outcome speech_env p = recognize speech_env speech_wav"
    by (rule outcome_exported [of _ 47 "ascii ''tmp/tmp1.wav''"])
      (simp_all add: speech_env_def tmp1_path)
  then show ?thesis by (simp only: recognize_speech)
qed

lemma outcome_corrupt: "outcome corrupt_env p = ([], None)"
  by (simp add: outcome_def transcribe_audio_def convert_to_wav_def transcribe_body_def
      corrupt_env_def speech_env_def)

lemma outcome_silence:
  "outcome silence_env p = ([AcceptWaveform (frames speech_wav), FinalResult], Some [])"
proof -
  have "outcome silence_env p = recognize silence_env speech_wav"
    by (rule outcome_exported [of _ 47 "ascii ''tmp/tmp1.wav''"])
      (simp_all add: silence_env_def speech_env_def tmp1_path)
  then show ?thesis by (simp only: recognize_silence)
qed

lemma process_audio_file_run:
  assumes "process_audio_file ucd envs idx f d fs = (fs', made, r)"
  shows "(\<exists>e. banner idx = Inl e \<and> made = [] \<and> r = Inl e \<and> fs' = fs) \<or>
         (\<exists>i. banner idx = Inr i \<and>
            made = upto_success (map (\<lambda>k. outcome (envs k) (path_join d f)) [0, 1, 2]) \<and>
            r = Inr (result_of ucd i f made))"
proof (cases "banner idx")
  case (Inl e)
  with assms show ?thesis by (simp add: process_audio_file_def)
next
  case (Inr i)
  obtain fs1 made1 r1 where
    a: "attempts ucd envs i f (path_join d f) [0, 1, 2] fs = (fs1, made1, r1)"
    by (cases "attempts ucd envs i f (path_join d f) [0, 1, 2] fs") auto
  have "process_audio_file ucd envs idx f d fs = (fs1, made1, Inr r1)"
    by (simp only: process_audio_file_def Inr a sum.case prod.case)
  with assms have "made = made1" "r = Inr r1" by simp_all
  with attempts_made [OF a] Inr show ?thesis by simp
qed

lemma process_audio_file_result:
  assumes "banner idx = Inr i"
  shows "snd (process_audio_file ucd envs idx f d fs) =
           (upto_success (map (\<lambda>k. outcome (envs k) (path_join d f)) [0, 1, 2]),
            Inr (result_of ucd i f
                   (upto_success (map (\<lambda>k. outcome (envs k) (path_join d f)) [0, 1, 2]))))"
proof -
  let ?p = "process_audio_file ucd envs idx f d fs"
  have "?p = (fst ?p, fst (snd ?p), snd (snd ?p))" by simp
  from process_audio_file_run [OF this] assms show ?thesis
    by (auto simp: prod_eq_iff)
qed

lemma upto_success_prefix:
  "length (upto_success xs) \<le> length xs \<and>
   (\<forall>k<length (upto_success xs). upto_success xs ! k = xs ! k)"
  by (induction xs) (auto simp: nth_Cons')

lemma nth_three: "k < 3 \<Longrightarrow> [a, b, c] ! k = (if k = 0 then a else if k = 1 then b else c)"
  by (auto simp: nth_Cons' numeral_3_eq_3 less_Suc_eq)

lemma banner_pair_idx: "banner (pair_idx i) = Inr i"
  by (simp add: banner_def subscript_def int_operand_def pair_idx_def)

lemma result_of_Some:
  "result_of ucd i f made = (i0, f0, Some n, tr) \<Longrightarrow> i0 = i \<and> (\<exists>t. n = new_name ucd i t f)"
  by (auto simp: result_of_def split: option.splits list.splits if_splits)

lemma result_of_single:
  "t \<noteq> [] \<Longrightarrow>
     result_of ucd i f [(log, Some t)] = (i, f, Some (new_name ucd i t f), Some t)"
  by (cases t) (simp_all add: result_of_def)

text \<open>
  Claim C1. For every argument tuple the task would have to return a result without
  raising. The code does not do so on the tuples \<open>main\<close> submits: \<open>idx\<close> is the integer
  of \<open>enumerate\<close>, line 85 subscripts it, and the \<open>TypeError\<close> leaves the function before
  the first attempt, with the filesystem untouched.
\<close>

theorem process_audio_file_raises_on_int_index:
  "process_audio_file ucd envs (PyInt (int i)) f d fs = (fs, [], Inl TypeError)"
  by (simp add: process_audio_file_def banner_def subscript_def)

text \<open>
  Claim C2. The task makes at most 3 attempts, the \<open>k\<close>-th being the pipeline run in the
  \<open>k\<close>-th environment. Once line 85 has passed: if the first two attempts fail and the
  third succeeds, exactly these three attempts are made and the result carries the third
  attempt's transcript and the filename derived from it; if all three fail (an empty
  transcript counts as a failure), exactly three attempts are made and the result has
  neither a filename nor a transcript.
\<close>

theorem retry_policy:
  assumes "process_audio_file ucd envs idx f d fs = (fs', made, r)"
  shows "length made \<le> 3 \<and>
    (\<forall>k<length made. made ! k = outcome (envs k) (path_join d f)) \<and>
    (\<forall>i. banner idx = Inr i \<and>
          failed (outcome (envs 0) (path_join d f)) \<and>
          failed (outcome (envs 1) (path_join d f)) \<and>
          \<not> failed (outcome (envs 2) (path_join d f)) \<longrightarrow>
          made = [outcome (envs 0) (path_join d f), outcome (envs 1) (path_join d f),
                  outcome (envs 2) (path_join d f)] \<and>
          (\<exists>t. snd (outcome (envs 2) (path_join d f)) = Some t \<and>
               r = Inr (i, f, Some (new_name ucd i t f), Some t))) \<and>
    (\<forall>i. banner idx = Inr i \<and>
          failed (outcome (envs 0) (path_join d f)) \<and>
          failed (outcome (envs 1) (path_join d f)) \<and>
          failed (outcome (envs 2) (path_join d f)) \<longrightarrow>
          made = [outcome (envs 0) (path_join d f), outcome (envs 1) (path_join d f),
                  outcome (envs 2) (path_join d f)] \<and>
          r = Inr (i, f, None, None))"
proof -
  let ?o = "\<lambda>k. outcome (envs k) (path_join d f)"
  from process_audio_file_run [OF assms]
  consider (raised) "made = []" "\<exists>e. banner idx = Inl e"
    | (ran) i where "banner idx = Inr i" "made = upto_success [?o 0, ?o 1, ?o 2]"
        "r = Inr (result_of ucd i f made)"
    by auto
  then show ?thesis
  proof cases
    case raised
    then show ?thesis by auto
  next
    case ran
    have len: "length made \<le> 3"
      using upto_success_prefix [of "[?o 0, ?o 1, ?o 2]"] ran(2) by simp
    have nth: "\<forall>k<length made. made ! k = ?o k"
    proof (intro allI impI)
      fix k assume k: "k < length made"
      with len have k3: "k < 3" by simp
      then have "k = 0 \<or> k = 1 \<or> k = 2" by arith
      moreover have "made ! k = [?o 0, ?o 1, ?o 2] ! k"
        using upto_success_prefix [of "[?o 0, ?o 1, ?o 2]"] ran(2) k by simp
      ultimately show "made ! k = ?o k" by (auto simp: nth_three)
    qed
    have succ: "failed (?o 0) \<and> failed (?o 1) \<and> \<not> failed (?o 2) \<longrightarrow>
        made = [?o 0, ?o 1, ?o 2] \<and>
        (\<exists>t. snd (?o 2) = Some t \<and> r = Inr (i, f, Some (new_name ucd i t f), Some t))"
    proof
      assume h: "failed (?o 0) \<and> failed (?o 1) \<and> \<not> failed (?o 2)"
      then have m: "made = [?o 0, ?o 1, ?o 2]" using ran(2) by simp
      obtain log tr where o2: "?o 2 = (log, tr)" by (cases "?o 2") auto
      with h obtain c cs where tr: "tr = Some (c # cs)"
        by (cases tr; cases "the tr") auto
      have "r = Inr (i, f, Some (new_name ucd i (c # cs) f), Some (c # cs))"
        using ran(3) m o2 tr by (simp add: result_of_def)
      with m o2 tr show "made = [?o 0, ?o 1, ?o 2] \<and>
        (\<exists>t. snd (?o 2) = Some t \<and> r = Inr (i, f, Some (new_name ucd i t f), Some t))"
        by simp
    qed
    have fail: "failed (?o 0) \<and> failed (?o 1) \<and> failed (?o 2) \<longrightarrow>
        made = [?o 0, ?o 1, ?o 2] \<and> r = Inr (i, f, None, None)"
    proof
      assume h: "failed (?o 0) \<and> failed (?o 1) \<and> failed (?o 2)"
      then have m: "made = [?o 0, ?o 1, ?o 2]" using ran(2) by simp
      obtain log tr where o2: "?o 2 = (log, tr)" by (cases "?o 2") auto
      with h have "tr = None \<or> tr = Some []" by (simp add: failed_iff)
      then have "r = Inr (i, f, None, None)"
        using ran(3) m o2 by (auto simp: result_of_def)
      with m show "made = [?o 0, ?o 1, ?o 2] \<and> r = Inr (i, f, None, None)" by simp
    qed
    from len nth succ fail ran(1) show ?thesis by auto
  qed
qed

theorem retry_policy_witness:
  "fst (snd (process_audio_file no_wide_alnum flaky_envs (pair_idx 0) (ascii ''a.wav'')
               (ascii ''audio'') Map.empty))
     = [([], None), ([], None),
        ([AcceptWaveform (frames speech_wav), FinalResult], Some (ascii ''hello world''))] \<and>
   snd (snd (process_audio_file no_wide_alnum flaky_envs (pair_idx 0) (ascii ''a.wav'')
               (ascii ''audio'') Map.empty))
     = Inr (0, ascii ''a.wav'', Some (ascii ''01 - hello world.wav''),
            Some (ascii ''hello world'')) \<and>
   snd (process_audio_file no_wide_alnum (\<lambda>k. silence_env) (pair_idx 0) (ascii ''c.flac'')
          (ascii ''audio'') Map.empty)
     = (replicate 3 ([AcceptWaveform (frames speech_wav), FinalResult], Some []),
        Inr (0, ascii ''c.flac'', None, None))"
proof -
  let ?a = "process_audio_file no_wide_alnum flaky_envs (pair_idx 0) (ascii ''a.wav'')
              (ascii ''audio'') Map.empty"
  let ?c = "process_audio_file no_wide_alnum (\<lambda>k. silence_env) (pair_idx 0) (ascii ''c.flac'')
              (ascii ''audio'') Map.empty"
  have a: "?a = (fst ?a, fst (snd ?a), snd (snd ?a))" by simp
  have c: "?c = (fst ?c, fst (snd ?c), snd (snd ?c))" by simp
  have "fst (snd ?a) = [([], None), ([], None),
        ([AcceptWaveform (frames speech_wav), FinalResult], Some (ascii ''hello world''))]"
    and "snd (snd ?a) = Inr (0, ascii ''a.wav'', Some (ascii ''01 - hello world.wav''),
            Some (ascii ''hello world''))"
    using retry_policy [OF a]
    by (simp_all add: banner_pair_idx flaky_envs_def outcome_speech outcome_corrupt
        new_name_hello failed_iff hello_nonempty)
  moreover have "snd ?c = (replicate 3 ([AcceptWaveform (frames speech_wav), FinalResult], Some []),
        Inr (0, ascii ''c.flac'', None, None))"
    using retry_policy [OF c]
    by (simp add: banner_pair_idx outcome_silence numeral_3_eq_3 prod_eq_iff failed_iff)
  ultimately show ?thesis by simp
qed

text \<open>
  Claim C10. Two tasks that succeed with distinct ordinal indices derive distinct
  filenames, whatever their transcripts and extensions, and so their renames in the
  audio directory have distinct destination paths.
\<close>

theorem derived_names_distinct:
  assumes "process_audio_file ucd envs idx f d fs = (fs1, made, Inr (i, f0, Some n, tr))"
    and "process_audio_file ucd envs' idx' f' d fs' = (fs1', made', Inr (j, f0', Some n', tr'))"
    and "i \<noteq> j"
  shows "n \<noteq> n' \<and> path_join d n \<noteq> path_join d n'"
proof -
  from process_audio_file_run [OF assms(1)] obtain i1 where
    "result_of ucd i1 f made = (i, f0, Some n, tr)" by auto
  from result_of_Some [OF this] obtain t where n: "n = new_name ucd i t f" by auto
  from process_audio_file_run [OF assms(2)] obtain j1 where
    "result_of ucd j1 f' made' = (j, f0', Some n', tr')" by auto
  from result_of_Some [OF this] obtain t' where n': "n' = new_name ucd j t' f'" by auto
  have ne: "n \<noteq> n'" using new_name_index [of ucd i t f j t' f'] assms(3) n n' by auto
  have "path_join d n \<noteq> path_join d n'"
    using path_join_inj [of n n' d] new_name_relative [of ucd i t f]
      new_name_relative [of ucd j t' f'] n n' ne by auto
  with ne show ?thesis by simp
qed

theorem derived_names_distinct_witness:
  "snd (snd (process_audio_file no_wide_alnum (\<lambda>k. speech_env) (pair_idx 0) (ascii ''a.wav'')
               (ascii ''audio'') Map.empty))
     = Inr (0, ascii ''a.wav'', Some (ascii ''01 - hello world.wav''),
            Some (ascii ''hello world'')) \<and>
   snd (snd (process_audio_file no_wide_alnum (\<lambda>k. speech_env) (pair_idx 1) (ascii ''b.mp3'')
               (ascii ''audio'') Map.empty))
     = Inr (1, ascii ''b.mp3'', Some (ascii ''02 - hello world.mp3''),
            Some (ascii ''hello world'')) \<and>
   ascii ''01 - hello world.wav'' \<noteq> ascii ''02 - hello world.mp3'' \<and>
   path_join (ascii ''audio'') (ascii ''01 - hello world.wav'') \<noteq>
     path_join (ascii ''audio'') (ascii ''02 - hello world.mp3'')"
proof -
  let ?a = "process_audio_file no_wide_alnum (\<lambda>k. speech_env) (pair_idx 0) (ascii ''a.wav'')
              (ascii ''audio'') Map.empty"
  let ?b = "process_audio_file no_wide_alnum (\<lambda>k. speech_env) (pair_idx 1) (ascii ''b.mp3'')
              (ascii ''audio'') Map.empty"
  have ra: "snd (snd ?a) = Inr (0, ascii ''a.wav'', Some (ascii ''01 - hello world.wav''),
            Some (ascii ''hello world''))"
    by (simp add: process_audio_file_result [OF banner_pair_idx] outcome_speech failed_iff
        hello_nonempty result_of_single new_name_hello)
  have rb: "snd (snd ?b) = Inr (1, ascii ''b.mp3'', Some (ascii ''02 - hello world.mp3''),
            Some (ascii ''hello world''))"
    by (simp add: process_audio_file_result [OF banner_pair_idx] outcome_speech failed_iff
        hello_nonempty result_of_single new_name_hello_second)
  have a: "?a = (fst ?a, fst (snd ?a), Inr (0, ascii ''a.wav'',
              Some (ascii ''01 - hello world.wav''), Some (ascii ''hello world'')))"
    using ra by (simp add: prod_eq_iff)
  have b: "?b = (fst ?b, fst (snd ?b), Inr (1, ascii ''b.mp3'',
              Some (ascii ''02 - hello world.mp3''), Some (ascii ''hello world'')))"
    using rb by (simp add: prod_eq_iff)
  have "(0::int) \<noteq> 1" by simp
  from derived_names_distinct [OF a b this] ra rb show ?thesis by simp
qed

section \<open>Properties of \<open>transcribe_audio\<close>\<close>

lemma fed_append: "fed (a @ b) = fed a @ fed b"
  by (induction a rule: fed.induct) auto

lemma stripped_text_Some: "j \<noteq> Unparsable \<Longrightarrow> stripped_text j = Some (text_or_empty j)"
  by (cases j) auto

lemma chunks_of_Nil: "chunks_of n [] = []"
  by (simp add: chunks_of.simps)

lemma chunks_of_step: "0 < n \<Longrightarrow> xs \<noteq> [] \<Longrightarrow> chunks_of n xs = take n xs # chunks_of n (drop n xs)"
  by (subst chunks_of.simps) simp

lemma stream_runs:
  "engine_runs env (fed log) (chunks_of 8000 rest) \<Longrightarrow>
     stream env rest log results =
       (log @ calls_for env (fed log) (chunks_of 8000 rest),
        Some (results @ filter (\<lambda>t. t \<noteq> []) (chunk_texts env (fed log) (chunks_of 8000 rest))))"
proof (induction env rest log results rule: stream.induct)
  case (1 env rest log results)
  show ?case
  proof (cases "rest = []")
    case True
    with "1.prems" show ?thesis
      by (subst stream.simps) (simp add: chunks_of_Nil)
  next
    case False
    let ?c = "take 8000 rest"
    have ch: "chunks_of 8000 rest = ?c # chunks_of 8000 (drop 8000 rest)"
      using False by (simp add: chunks_of_step)
    from "1.prems" ch have rd: "readframes_ok env (length (fed log))"
      and acc: "accept_waveform env (fed log @ [?c]) \<noteq> None"
      and res: "accept_waveform env (fed log @ [?c]) \<noteq> Some True \<or> result_json env (fed log @ [?c]) \<noteq> Unparsable"
      and rest: "engine_runs env (fed log @ [?c]) (chunks_of 8000 (drop 8000 rest))"
      by simp_all
    from False have ne: "take 8000 rest \<noteq> []" by simp
    from acc obtain b where b: "accept_waveform env (fed log @ [?c]) = Some b" by auto
    show ?thesis
    proof (cases b)
      case False
      have f: "fed (log @ [AcceptWaveform ?c]) = fed log @ [?c]" by (simp add: fed_append)
      have rd': "\<not> \<not> readframes_ok env (length (fed log))" using rd by simp
      have bf: "b = False" using False by simp
      from "1.IH"(2) [OF rd' ne b bf] rest f
      have "stream env (drop 8000 rest) (log @ [AcceptWaveform ?c]) results =
         ((log @ [AcceptWaveform ?c]) @ calls_for env (fed log @ [?c]) (chunks_of 8000 (drop 8000 rest)),
          Some (results @ filter (\<lambda>t. t \<noteq> []) (chunk_texts env (fed log @ [?c]) (chunks_of 8000 (drop 8000 rest)))))"
        by simp
      with rd ne b False ch show ?thesis
        by (subst stream.simps) simp
    next
      case True
      with res b have "result_json env (fed log @ [?c]) \<noteq> Unparsable" by simp
      then have st: "stripped_text (result_json env (fed log @ [?c])) = Some (text_or_empty (result_json env (fed log @ [?c])))"
        by (rule stripped_text_Some)
      let ?t = "text_or_empty (result_json env (fed log @ [?c]))"
      have f: "fed (log @ [AcceptWaveform ?c, Result]) = fed log @ [?c]" by (simp add: fed_append)
      have rd': "\<not> \<not> readframes_ok env (length (fed log))" using rd by simp
      have bt: "b = True" using True by simp
      from "1.IH"(1) [OF rd' ne b bt st] rest f
      have "stream env (drop 8000 rest) (log @ [AcceptWaveform ?c, Result]) (if ?t \<noteq> [] then results @ [?t] else results) =
         ((log @ [AcceptWaveform ?c, Result]) @ calls_for env (fed log @ [?c]) (chunks_of 8000 (drop 8000 rest)),
          Some ((if ?t \<noteq> [] then results @ [?t] else results) @ filter (\<lambda>t. t \<noteq> []) (chunk_texts env (fed log @ [?c]) (chunks_of 8000 (drop 8000 rest)))))"
        by simp
      with rd ne b True st ch show ?thesis
        by (subst stream.simps) simp
    qed
  qed
qed


lemma fed_calls_for: "fed (calls_for env h cs) = cs"
  by (induction cs arbitrary: h) auto

lemma no_final_in_calls_for: "count_list (calls_for env h cs) FinalResult = 0"
  by (induction cs arbitrary: h) auto

lemma engine_runs_final: "engine_runs env h cs \<Longrightarrow> final_json env (h @ cs) \<noteq> Unparsable"
proof (induction cs arbitrary: h)
  case Nil
  then show ?case by simp
next
  case (Cons a cs)
  then have "engine_runs env (h @ [a]) cs" by simp
  from Cons.IH [OF this] show ?case by simp
qed

lemma recognize_runs:
  assumes "nchannels w = 1" and "sampwidth w = 2"
    and "engine_runs env [] (chunks_of 8000 (frames w))"
  shows "recognize env w =
           (calls_for env [] (chunks_of 8000 (frames w)) @ [FinalResult],
            Some (spec_transcript env (chunks_of 8000 (frames w))))"
proof -
  let ?cs = "chunks_of 8000 (frames w)"
  have s: "stream env (frames w) [] [] =
      (calls_for env [] ?cs, Some (filter (\<lambda>t. t \<noteq> []) (chunk_texts env [] ?cs)))"
    using stream_runs [of env "[]" "frames w" "[]"] assms(3) by simp
  have "final_json env ?cs \<noteq> Unparsable"
    using engine_runs_final [OF assms(3)] by simp
  then have f: "stripped_text (final_json env ?cs) = Some (text_or_empty (final_json env ?cs))"
    by (rule stripped_text_Some)
  show ?thesis
    using assms(1,2) by (simp add: recognize_def s fed_calls_for f spec_transcript_def)
qed

lemma concat_chunks_of: "0 < n \<Longrightarrow> concat (chunks_of n xs) = xs"
proof (induction n xs rule: chunks_of.induct)
  case (1 n xs)
  then show ?case by (subst chunks_of.simps) auto
qed

lemma chunks_of_complete:
  "0 < n \<Longrightarrow> length xs = n * N \<Longrightarrow>
     length (chunks_of n xs) = N \<and> (\<forall>c\<in>set (chunks_of n xs). length c = n)"
proof (induction n xs arbitrary: N rule: chunks_of.induct)
  case (1 n xs)
  show ?case
  proof (cases "xs = []")
    case True
    with "1.prems" show ?thesis by (simp add: chunks_of_Nil)
  next
    case False
    with "1.prems" obtain M where N: "N = Suc M" by (cases N) auto
    with "1.prems" have len: "length (drop n xs) = n * M" by simp
    from "1.prems" N have tk: "length (take n xs) = n" by simp
    from "1.IH" [OF _ "1.prems"(1) len] "1.prems"(1) False
    have "length (chunks_of n (drop n xs)) = M \<and> (\<forall>c\<in>set (chunks_of n (drop n xs)). length c = n)"
      by simp
    with False "1.prems"(1) N tk show ?thesis
      by (subst (1 2) chunks_of.simps) simp
  qed
qed

text \<open>
  Claim C7. Let the converted file be mono with 16-bit samples and hold \<open>N\<close> complete
  chunks of 8000 frames, and let neither reading nor the engine raise. Then the
  recognizer is fed exactly these \<open>N\<close> chunks, in order and whole, the final result is
  drained exactly once, as the last engine call, and the returned transcript is the
  space-joined, trimmed sequence of the non-empty texts recognized for the chunks in read
  order followed by the non-empty final text.
\<close>

theorem recognizer_consumes_all_chunks:
  assumes "transcribe_audio env audio_path fs = (fs', log, r)"
    and "mkstemp env = Some (c # cs)" and "pipeline env = Exported (Wav w)"
    and "recognizer_ok env"
    and "nchannels w = 1" and "sampwidth w = 2"
    and "length (frames w) = 8000 * N"
    and "engine_runs env [] (chunks_of 8000 (frames w))"
  shows "length (fed log) = N \<and> (\<forall>c\<in>set (fed log). length c = 8000) \<and>
         concat (fed log) = frames w \<and>
         count_list log FinalResult = 1 \<and> last log = FinalResult \<and>
         r = Some (spec_transcript env (fed log))"
proof -
  let ?cs = "chunks_of 8000 (frames w)"
  have "(log, r) = outcome env audio_path"
    using transcribe_audio_outcome [of env audio_path fs] assms(1) by simp
  also have "\<dots> = recognize env w"
    using assms(2,3,4) by (rule outcome_exported)
  finally have lr: "log = calls_for env [] ?cs @ [FinalResult]" "r = Some (spec_transcript env ?cs)"
    using recognize_runs [OF assms(5,6,8)] by simp_all
  have fed: "fed log = ?cs" by (simp add: lr(1) fed_append fed_calls_for)
  have "length ?cs = N \<and> (\<forall>c\<in>set ?cs. length c = 8000)"
    using chunks_of_complete [of 8000 "frames w" N] assms(7) by simp
  moreover have "concat ?cs = frames w" by (simp add: concat_chunks_of)
  moreover have "count_list log FinalResult = 1"
    by (simp add: lr(1) no_final_in_calls_for)
  moreover have "last log = FinalResult" by (simp add: lr(1))
  ultimately show ?thesis using fed lr(2) by simp
qed

lemma two_chunks:
  "chunks_of 8000 (frames two_chunk_wav) = [replicate 8000 [0, 0], replicate 8000 [7, 0]]"
  by (simp add: two_chunk_wav_def chunks_of_step chunks_of_Nil)

lemma two_chunk_transcript:
  "spec_transcript two_chunk_env [replicate 8000 [0, 0], replicate 8000 [7, 0]] = ascii ''hello world''"
  by (simp add: spec_transcript_def two_chunk_env_def strip_def isspace_def ascii_def)

theorem recognizer_consumes_all_chunks_witness:
  "length (fed (fst (snd (transcribe_audio two_chunk_env (ascii ''a.wav'') Map.empty)))) = 2 \<and>
   fed (fst (snd (transcribe_audio two_chunk_env (ascii ''a.wav'') Map.empty))) =
     [replicate 8000 [0, 0], replicate 8000 [7, 0]] \<and>
   count_list (fst (snd (transcribe_audio two_chunk_env (ascii ''a.wav'') Map.empty))) FinalResult = 1 \<and>
   snd (snd (transcribe_audio two_chunk_env (ascii ''a.wav'') Map.empty)) = Some (ascii ''hello world'')"
proof -
  let ?t = "transcribe_audio two_chunk_env (ascii ''a.wav'') Map.empty"
  have run: "?t = (fst ?t, fst (snd ?t), snd (snd ?t))" by simp
  have mk: "mkstemp two_chunk_env = Some (47 # ascii ''tmp/tmp1.wav'')"
    by (simp add: two_chunk_env_def ascii_def)
  have pl: "pipeline two_chunk_env = Exported (Wav two_chunk_wav)"
    and ok: "recognizer_ok two_chunk_env"
    by (simp_all add: two_chunk_env_def)
  have ch: "nchannels two_chunk_wav = 1" and sw: "sampwidth two_chunk_wav = 2"
    and len: "length (frames two_chunk_wav) = 8000 * 2"
    by (simp_all add: two_chunk_wav_def)
  have runs: "engine_runs two_chunk_env [] (chunks_of 8000 (frames two_chunk_wav))"
    by (simp add: two_chunks) (auto simp: two_chunk_env_def)
  have fedlog: "fed (fst (snd ?t)) = [replicate 8000 [0, 0], replicate 8000 [7, 0]]"
    using transcribe_audio_outcome [of two_chunk_env "ascii ''a.wav''" Map.empty]
      outcome_exported [OF mk pl ok, of "ascii ''a.wav''"] recognize_runs [OF ch sw runs]
    by (simp add: two_chunks fed_append fed_calls_for prod_eq_iff)
  from recognizer_consumes_all_chunks [OF run mk pl ok ch sw len runs] fedlog
  show ?thesis by (simp add: two_chunk_transcript)
qed

lemma recognize_invalid: "nchannels w \<noteq> 1 \<or> sampwidth w \<noteq> 2 \<Longrightarrow> recognize env w = ([], None)"
  by (auto simp: recognize_def)

lemma transcribe_audio_cases:
  assumes "transcribe_audio env audio_path fs = (fs', log, r)"
  shows "(log = [] \<and> r = None) \<or>
         (\<exists>w. pipeline env = Exported (Wav w) \<and> (log, r) = recognize env w)"
  using assms
  by (auto simp: transcribe_audio_def convert_to_wav_def transcribe_body_def
      split: option.splits pipeline_outcome.splits list.splits content.splits if_splits)

text \<open>
  Claim C5, as amended. Before any audio reaches the engine, the recognizer checks that
  the converted file is a PCM wave file (the reader opens nothing else) with one channel
  and a sample width of 2 bytes. When it is not, no engine call is made and the result is
  \<open>None\<close>; the function returns in every case. The sample rate is not among the checks.
\<close>

theorem format_checked_before_streaming:
  assumes "transcribe_audio env audio_path fs = (fs', log, r)"
  shows "((\<forall>w. pipeline env = Exported (Wav w) \<longrightarrow> nchannels w \<noteq> 1 \<or> sampwidth w \<noteq> 2) \<longrightarrow>
            log = [] \<and> r = None) \<and>
         (log \<noteq> [] \<or> r \<noteq> None \<longrightarrow>
            (\<exists>w. pipeline env = Exported (Wav w) \<and> nchannels w = 1 \<and> sampwidth w = 2))"
proof -
  from transcribe_audio_cases [OF assms]
  consider "log = []" "r = None"
    | w where "pipeline env = Exported (Wav w)" "(log, r) = recognize env w"
    by auto
  then show ?thesis
  proof cases
    case 1
    then show ?thesis by simp
  next
    case 2
    show ?thesis
    proof (cases "nchannels w \<noteq> 1 \<or> sampwidth w \<noteq> 2")
      case True
      from recognize_invalid [OF this] 2(2) show ?thesis by simp
    next
      case False
      with 2(1) show ?thesis by auto
    qed
  qed
qed

theorem format_checked_before_streaming_witness:
  "snd (transcribe_audio stereo_env (ascii ''a.wav'') Map.empty) = ([], None) \<and>
   pipeline stereo_env = Exported (Wav (speech_wav\<lparr>nchannels := 2\<rparr>)) \<and>
   snd (transcribe_audio speech_env (ascii ''a.wav'') Map.empty) =
     ([AcceptWaveform (frames speech_wav), FinalResult], Some (ascii ''hello world'')) \<and>
   nchannels speech_wav = 1 \<and> sampwidth speech_wav = 2"
proof -
  let ?t = "transcribe_audio stereo_env (ascii ''a.wav'') Map.empty"
  have run: "?t = (fst ?t, fst (snd ?t), snd (snd ?t))" by simp
  have p: "pipeline stereo_env = Exported (Wav (speech_wav\<lparr>nchannels := 2\<rparr>))"
    by (simp add: stereo_env_def speech_env_def)
  have "\<forall>w. pipeline stereo_env = Exported (Wav w) \<longrightarrow> nchannels w \<noteq> 1 \<or> sampwidth w \<noteq> 2"
    by (simp add: p)
  with format_checked_before_streaming [OF run]
  have "fst (snd ?t) = [] \<and> snd (snd ?t) = None" by blast
  then have "snd ?t = ([], None)" by (simp add: prod_eq_iff)
  moreover have "snd (transcribe_audio speech_env (ascii ''a.wav'') Map.empty) =
     ([AcceptWaveform (frames speech_wav), FinalResult], Some (ascii ''hello world''))"
    by (simp add: transcribe_audio_outcome outcome_speech)
  ultimately show ?thesis using p by (simp add: speech_wav_def)
qed

text \<open>
  Claim C5 as stated does not hold: a mono 16-bit file at 8000 Hz passes the check, is
  streamed to the recognizer (created for 16000 Hz) and yields a transcript.
\<close>

theorem sample_rate_not_checked:
  "pipeline lowrate_env = Exported (Wav (speech_wav\<lparr>framerate := 8000\<rparr>)) \<and>
   framerate (speech_wav\<lparr>framerate := 8000\<rparr>) = 8000 \<and>
   snd (transcribe_audio lowrate_env (ascii ''a.wav'') Map.empty) =
     ([AcceptWaveform (frames speech_wav), FinalResult], Some (ascii ''hello world''))"
proof -
  have "outcome lowrate_env (ascii ''a.wav'') = recognize lowrate_env (speech_wav\<lparr>framerate := 8000\<rparr>)"
    by (rule outcome_exported [of _ 47 "ascii ''tmp/tmp1.wav''"])
      (simp_all add: lowrate_env_def speech_env_def tmp1_path)
  also have "\<dots> = ([AcceptWaveform (frames speech_wav), FinalResult], Some (ascii ''hello world''))"
    by (simp add: recognize_def stream.simps lowrate_env_def speech_env_def speech_wav_def
        strip_def isspace_def ascii_def)
  finally show ?thesis
    by (simp add: transcribe_audio_outcome lowrate_env_def speech_env_def)
qed

text \<open>
  Claim C4, as amended. When \<open>convert_to_wav\<close> returns the path of the temporary file and
  \<open>os.remove\<close> does not raise, the file no longer exists when \<open>transcribe_audio\<close>
  returns, whether it returns a transcript or \<open>None\<close>, and no other file has changed.
\<close>

theorem temp_wav_removed:
  assumes "transcribe_audio env audio_path fs = (fs', log, r)"
    and "convert_to_wav env audio_path None fs = (fs1, Some p)" and "p \<noteq> []"
    and "remove_ok env"
  shows "fs' p = None \<and> (\<forall>q. q \<noteq> p \<longrightarrow> fs' q = fs q)"
proof -
  from assms(2) have mk: "mkstemp env = Some p" and fs1: "\<exists>c. fs1 = fs(p \<mapsto> c)"
    by (auto simp: convert_to_wav_def split: option.splits pipeline_outcome.splits)
  from assms(3) obtain c cs where p: "p = c # cs" by (cases p) auto
  from assms(1,2) have "fs' = cleanup env (Some p) fs1"
    by (auto simp: transcribe_audio_def split: prod.splits)
  with fs1 p assms(4) show ?thesis
    by (auto simp: cleanup_def)
qed

lemma convert_speech:
  "convert_to_wav speech_env a None Map.empty =
     (Map.empty(ascii ''/tmp/tmp1.wav'' \<mapsto> Wav speech_wav), Some (ascii ''/tmp/tmp1.wav''))"
  by (simp add: convert_to_wav_def speech_env_def)

lemma convert_no_engine:
  "convert_to_wav no_engine_env a None Map.empty =
     (Map.empty(ascii ''/tmp/tmp1.wav'' \<mapsto> Wav speech_wav), Some (ascii ''/tmp/tmp1.wav''))"
  by (simp add: convert_to_wav_def no_engine_env_def speech_env_def)

lemma outcome_no_engine: "outcome no_engine_env p = ([], None)"
  by (simp add: outcome_def transcribe_audio_def convert_to_wav_def transcribe_body_def
      no_engine_env_def speech_env_def tmp1_path)

theorem temp_wav_removed_witness:
  "fst (transcribe_audio speech_env (ascii ''a.wav'') Map.empty) (ascii ''/tmp/tmp1.wav'') = None \<and>
   snd (snd (transcribe_audio speech_env (ascii ''a.wav'') Map.empty)) = Some (ascii ''hello world'') \<and>
   fst (transcribe_audio no_engine_env (ascii ''a.wav'') Map.empty) (ascii ''/tmp/tmp1.wav'') = None \<and>
   snd (snd (transcribe_audio no_engine_env (ascii ''a.wav'') Map.empty)) = None"
proof -
  let ?s = "transcribe_audio speech_env (ascii ''a.wav'') Map.empty"
  let ?n = "transcribe_audio no_engine_env (ascii ''a.wav'') Map.empty"
  have s: "?s = (fst ?s, fst (snd ?s), snd (snd ?s))" by simp
  have n: "?n = (fst ?n, fst (snd ?n), snd (snd ?n))" by simp
  have ne: "ascii ''/tmp/tmp1.wav'' \<noteq> []" by (simp add: ascii_def)
  have "remove_ok speech_env" by (simp add: speech_env_def)
  from temp_wav_removed [OF s convert_speech ne this]
  have 1: "fst ?s (ascii ''/tmp/tmp1.wav'') = None" by simp
  have "remove_ok no_engine_env" by (simp add: no_engine_env_def speech_env_def)
  from temp_wav_removed [OF n convert_no_engine ne this]
  have 2: "fst ?n (ascii ''/tmp/tmp1.wav'') = None" by simp
  have 3: "snd (snd ?s) = Some (ascii ''hello world'')"
    using transcribe_audio_outcome [of speech_env "ascii ''a.wav''" Map.empty]
    by (simp add: outcome_speech)
  have 4: "snd (snd ?n) = None"
    using transcribe_audio_outcome [of no_engine_env "ascii ''a.wav''" Map.empty]
    by (simp add: outcome_no_engine)
  from 1 2 3 4 show ?thesis by simp
qed

text \<open>
  Claim C4 as stated does not hold: the \<open>finally\<close> block swallows an \<open>OSError\<close> of
  \<open>os.remove\<close>, and the temporary file is then still there after the call.
\<close>

theorem temp_wav_left_when_remove_fails:
  "fst (transcribe_audio stuck_env (ascii ''a.wav'') Map.empty) (ascii ''/tmp/tmp1.wav'') =
     Some (Wav speech_wav) \<and>
   snd (snd (transcribe_audio stuck_env (ascii ''a.wav'') Map.empty)) = Some (ascii ''hello world'')"
proof -
  have c: "convert_to_wav stuck_env (ascii ''a.wav'') None Map.empty =
     (Map.empty(ascii ''/tmp/tmp1.wav'' \<mapsto> Wav speech_wav), Some (ascii ''/tmp/tmp1.wav''))"
    by (simp add: convert_to_wav_def stuck_env_def speech_env_def)
  have "outcome stuck_env (ascii ''a.wav'') = recognize stuck_env speech_wav"
    by (rule outcome_exported [of _ 47 "ascii ''tmp/tmp1.wav''"])
      (simp_all add: stuck_env_def speech_env_def tmp1_path)
  also have "\<dots> = ([AcceptWaveform (frames speech_wav), FinalResult], Some (ascii ''hello world''))"
    by (simp add: recognize_def stream.simps stuck_env_def speech_env_def speech_wav_def
        strip_def isspace_def ascii_def)
  finally have o: "snd (transcribe_audio stuck_env (ascii ''a.wav'') Map.empty) =
      ([AcceptWaveform (frames speech_wav), FinalResult], Some (ascii ''hello world''))"
    by (simp add: transcribe_audio_outcome)
  have "fst (transcribe_audio stuck_env (ascii ''a.wav'') Map.empty) =
      cleanup stuck_env (Some (ascii ''/tmp/tmp1.wav'')) (Map.empty(ascii ''/tmp/tmp1.wav'' \<mapsto> Wav speech_wav))"
    by (simp add: transcribe_audio_def c split: prod.splits)
  then have "fst (transcribe_audio stuck_env (ascii ''a.wav'') Map.empty) (ascii ''/tmp/tmp1.wav'') = Some (Wav speech_wav)"
    by (simp add: cleanup_def tmp1_path stuck_env_def)
  with o show ?thesis by simp
qed

text \<open>
  The temporary file also stays when the conversion fails after \<open>mkstemp\<close> has created
  it: \<open>convert_to_wav\<close> returns \<open>None\<close>, so the \<open>finally\<close> block of
  \<open>transcribe_audio\<close> has no path to remove.
\<close>

lemma temp_wav_left_after_failed_conversion:
  "fst (transcribe_audio corrupt_env (ascii ''b.mp3'') Map.empty) (ascii ''/tmp/tmp1.wav'') = Some Blank \<and>
   snd (transcribe_audio corrupt_env (ascii ''b.mp3'') Map.empty) = ([], None) \<and>
   remove_ok corrupt_env"
  by (simp add: transcribe_audio_def convert_to_wav_def transcribe_body_def cleanup_def
      corrupt_env_def speech_env_def)

section \<open>Properties of \<open>main\<close>\<close>

lemma collect_returns:
  "\<exists>evs'. collect env d (map Inr completed) results evs =
            (evs', Inr (results @ collected completed))"
proof (induction completed arbitrary: results evs)
  case Nil
  then show ?case by (simp add: collected_def)
next
  case (Cons r completed)
  obtain i f n t where r: "r = (i, f, n, t)" by (cases r) auto
  show ?case
  proof (cases "transcript_entry r = []")
    case True
    then have "t = None \<or> t = Some []"
      using r by (cases t; cases "the t") auto
    with Cons.IH [of results evs] r True show ?thesis
      by (auto simp: collected_def)
  next
    case False
    then obtain c cs where t: "t = Some (c # cs)"
      using r by (cases t; cases "the t") auto
    let ?res = "results @ [(i, format_02d (i + 1) @ ascii ''. '' @ (c # cs))]"
    have col: "results @ collected (r # completed) = ?res @ collected completed"
      using r t by (simp add: collected_def)
    show ?thesis
    proof (cases n)
      case None
      with Cons.IH [of ?res evs] r t col show ?thesis by (simp add: Let_def)
    next
      case (Some nm)
      show ?thesis
      proof (cases nm)
        case Nil
        with Some Cons.IH [of ?res evs] r t col show ?thesis by (simp add: Let_def)
      next
        case (Cons x xs)
        show ?thesis
        proof (cases "rename_ok env (path_join d f) (path_join d (x # xs))")
          case True
          with Some Cons Cons.IH [of ?res "evs @ [Rename (path_join d f) (path_join d (x # xs)), Print (Renamed (x # xs))]"] r t col
          show ?thesis by (simp add: Let_def)
        next
          case False
          with Some Cons Cons.IH [of ?res "evs @ [Print (RenameFailed f)]"] r t col
          show ?thesis by (simp add: Let_def)
        qed
      qed
    qed
  qed
qed

lemma fst_transcript_entry: "map fst (transcript_entry r) = (if transcript_entry r = [] then [] else [fst r])"
  by (cases r rule: transcript_entry.cases) auto

lemma fst_collected:
  "map fst (collected completed) = map fst (filter (\<lambda>r. transcript_entry r \<noteq> []) completed)"
  by (induction completed) (auto simp: collected_def fst_transcript_entry)

lemma distinct_collected:
  "distinct (map fst completed) \<Longrightarrow> distinct (map fst (collected completed))"
  by (simp add: fst_collected distinct_map_filter)

lemma mset_collected:
  assumes "mset completed = mset submitted"
  shows "mset (collected completed) = mset (collected submitted)"
proof -
  have "\<And>xs. mset (collected xs) = (\<Sum>r\<in>#mset xs. mset (transcript_entry r))"
    by (induct_tac xs) (simp_all add: collected_def)
  with assms show ?thesis by simp
qed

lemma sort_key_distinct_perm:
  assumes "distinct (map f xs)" and "mset xs = mset ys"
  shows "sort_key f xs = sort_key f ys"
proof (rule properties_for_sort_key)
  show "mset (sort_key f ys) = mset xs" using assms(2) by simp
  show "sorted (map f (sort_key f ys))" by simp
next
  fix k assume "k \<in> set (sort_key f ys)"
  then have kx: "k \<in> set xs" using assms(2) by (metis mset_eq_setD set_sort)
  have dx: "distinct (map f xs)" by (rule assms(1))
  have "mset (map f ys) = mset (map f xs)" using assms(2) by (metis mset_map)
  then have dy: "distinct (map f (sort_key f ys))"
    using dx by (metis mset_eq_imp_distinct_iff mset_map mset_sort)
  have one: "\<And>zs. distinct (map f zs) \<Longrightarrow> k \<in> set zs \<Longrightarrow> filter (\<lambda>x. f k = f x) zs = [k]"
  proof -
    fix zs
    assume "distinct (map f zs)" "k \<in> set zs"
    then show "filter (\<lambda>x. f k = f x) zs = [k]"
      by (induction zs) (auto simp: filter_empty_conv image_iff)
  qed
  from one [OF dy] \<open>k \<in> set (sort_key f ys)\<close> one [OF dx kx]
  show "filter (\<lambda>x. f k = f x) (sort_key f ys) = filter (\<lambda>x. f k = f x) xs" by simp
qed

lemma strictly_sorted_sort_key:
  "distinct (map f xs) \<Longrightarrow> sorted_wrt (<) (map f (sort_key f xs))"
proof -
  assume "distinct (map f xs)"
  then have "distinct (map f (sort_key f xs))"
    by (metis mset_eq_imp_distinct_iff mset_map mset_sort)
  then show ?thesis by (simp add: strict_sorted_iff)
qed

lemma set_fst_collected:
  "set (map fst (collected xs)) = {fst r | r. r \<in> set xs \<and> transcript_entry r \<noteq> []}"
proof -
  have "set (map fst (collected xs)) = fst ` {r \<in> set xs. transcript_entry r \<noteq> []}"
    by (simp add: fst_collected)
  also have "\<dots> = {fst r | r. r \<in> set xs \<and> transcript_entry r \<noteq> []}"
    by blast
  finally show ?thesis .
qed

text \<open>
  Claim C3. Let the submitted tasks have distinct ordinal indices and let their futures
  complete in any order. Then the coordinator collects the entries of the successful
  tasks, the lines it writes for them are those entries sorted by index, the indices of
  the written lines are strictly ascending and are the indices of the successful tasks,
  and the written lines do not depend on the completion order.
\<close>

theorem transcript_lines_in_index_order:
  assumes "distinct (map fst submitted)" and "mset completed = mset submitted"
  shows "\<exists>evs'. collect env d (map Inr completed) [] evs = (evs', Inr (collected completed)) \<and>
           body_lines (collected completed) =
             map (\<lambda>(i, line). line @ [10, 10]) (sort_key fst (collected completed)) \<and>
           sorted_wrt (<) (map fst (sort_key fst (collected completed))) \<and>
           set (map fst (sort_key fst (collected completed))) =
             {fst r | r. r \<in> set submitted \<and> transcript_entry r \<noteq> []} \<and>
           body_lines (collected completed) = body_lines (collected submitted)"
proof -
  have dc: "distinct (map fst completed)"
    using assms by (metis mset_eq_imp_distinct_iff mset_map)
  from collect_returns [of env d completed "[]" evs]
  obtain evs' where c: "collect env d (map Inr completed) [] evs = (evs', Inr (collected completed))"
    by auto
  have s: "sorted_wrt (<) (map fst (sort_key fst (collected completed)))"
    using distinct_collected [OF dc] by (rule strictly_sorted_sort_key)
  have "set submitted = set completed"
    using assms(2) by (rule mset_eq_setD [symmetric])
  then have ix: "set (map fst (sort_key fst (collected completed))) =
             {fst r | r. r \<in> set submitted \<and> transcript_entry r \<noteq> []}"
    using set_fst_collected [of completed] by simp
  have "sort_key fst (collected completed) = sort_key fst (collected submitted)"
    using distinct_collected [OF dc] mset_collected [OF assms(2)] by (rule sort_key_distinct_perm)
  then have b: "body_lines (collected completed) = body_lines (collected submitted)"
    by (simp add: body_lines_def)
  have bl: "body_lines (collected completed) =
             map (\<lambda>(i, line). line @ [10, 10]) (sort_key fst (collected completed))"
    by (simp add: body_lines_def)
  from c bl s ix b show ?thesis by blast
qed

text \<open>
  Claim C8, as amended. When the model fails to load, \<open>main\<close> has only made sure that
  the audio directory exists; it prints the failure and returns: no directory is listed,
  no task is submitted, no file is renamed or written, and the filesystem of temporary
  files is unchanged. \<open>main\<close> returns normally, so the exit status of the script is 0.
\<close>

theorem model_load_failure_aborts:
  assumes "\<not> model_loads env"
  shows "fst (main env fs) = fs \<and>
         (makedirs_ok env (path_join (base_dir env) (ascii ''audio'')) \<longrightarrow>
            main env fs =
              (fs, [Makedirs (path_join (base_dir env) (ascii ''audio'')), Print ModelLoadFailed],
               Inr ()) \<and>
            exit_status env fs = 0) \<and>
         (\<not> makedirs_ok env (path_join (base_dir env) (ascii ''audio'')) \<longrightarrow>
            main env fs = (fs, [], Inl OSError))"
  using assms by (simp add: main_def exit_status_def Let_def)

theorem model_load_failure_aborts_witness:
  "main no_model_run Map.empty =
     (Map.empty, [Makedirs (ascii ''/home/u/audio''), Print ModelLoadFailed], Inr ())"
proof -
  have "\<not> model_loads no_model_run" by (simp add: no_model_run_def example_run_def)
  from model_load_failure_aborts [OF this, of Map.empty]
  show ?thesis
    by (simp add: no_model_run_def example_run_def path_join_def ascii_def)
qed

text \<open>
  Claim C8 as stated does not hold in one point: the process does not exit with a
  non-success indication. After a failed model load the exit status is 0, the status of
  a successful run; the printed message is the only sign of the failure.
\<close>

theorem model_load_failure_exits_with_success_status:
  "\<not> model_loads no_model_run \<and> exit_status no_model_run Map.empty = 0"
  by (simp add: exit_status_def main_def no_model_run_def example_run_def Let_def)

text \<open>
  What \<open>main\<close> does once the model has loaded and there is an audio file: every task
  raises on its integer index (claim C1), the first \<open>future.result()\<close> raises the
  \<open>TypeError\<close> again, and \<open>main\<close> ends with it: nothing is renamed and no transcript file
  is written.
\<close>

lemma run_tasks_raise: "run_tasks env d tasks fs = (fs, map (\<lambda>t. Inl TypeError) tasks)"
proof (induction tasks)
  case Nil
  then show ?case by simp
next
  case (Cons t tasks)
  obtain i f where t: "t = (i, f)" by (cases t) auto
  with Cons show ?case by (simp add: process_audio_file_int)
qed

lemma collect_raises:
  "futures \<noteq> [] \<Longrightarrow> \<forall>x\<in>set futures. x = Inl e \<Longrightarrow>
     collect env d futures results evs = (evs, Inl e)"
  by (cases futures) auto

lemma process_files_raises:
  assumes "files \<noteq> []"
    and "makedirs_ok env (path_join (base_dir env) (ascii ''transcripts''))"
  shows "process_files env d files fs =
           (fs, Makedirs (path_join (base_dir env) (ascii ''transcripts'')) #
                map (\<lambda>(i, f). Submitted i f) (enumerate 0 files),
            Inl TypeError)"
proof -
  let ?futures = "map (\<lambda>t. Inl TypeError :: py_error + task_result) (enumerate 0 files)"
  let ?done = "map snd (sort_key (\<lambda>(i, future). finish_time env i) (enumerate 0 ?futures))"
  have rt: "run_tasks env d (enumerate 0 files) fs = (fs, ?futures)"
    by (rule run_tasks_raise)
  have "length ?done = length files" by simp
  with assms(1) have ne: "?done \<noteq> []" by (metis length_0_conv)
  have "set ?done = snd ` set (sort_key (\<lambda>(i, future). finish_time env i) (enumerate 0 ?futures))"
    by (simp only: set_map)
  also have "\<dots> = snd ` set (enumerate 0 ?futures)" by (simp only: set_sort)
  also have "\<dots> = set (map snd (enumerate 0 ?futures))" by (simp only: set_map)
  also have "\<dots> = set ?futures" by (simp only: map_snd_enumerate)
  finally have all: "\<forall>x\<in>set ?done. x = Inl TypeError" by auto
  have "collect env d ?done []
          (Makedirs (path_join (base_dir env) (ascii ''transcripts'')) #
           map (\<lambda>(i, f). Submitted i f) (enumerate 0 files)) =
        (Makedirs (path_join (base_dir env) (ascii ''transcripts'')) #
           map (\<lambda>(i, f). Submitted i f) (enumerate 0 files), Inl TypeError)"
    using ne all by (rule collect_raises)
  with assms(2) rt show ?thesis
    by (simp add: process_files_def Let_def)
qed

lemma main_raises_on_any_audio_file:
  assumes "makedirs_ok env (path_join (base_dir env) (ascii ''audio''))"
    and "makedirs_ok env (path_join (base_dir env) (ascii ''transcripts''))"
    and "model_loads env" and "listdir env = Some names"
    and "audio_files env (path_join (base_dir env) (ascii ''audio'')) names \<noteq> []"
  shows "fst (main env fs) = fs \<and> snd (snd (main env fs)) = Inl TypeError \<and>
         exit_status env fs = 1 \<and>
         (\<forall>p ls. WriteFile p ls \<notin> set (fst (snd (main env fs)))) \<and>
         (\<forall>a b. Rename a b \<notin> set (fst (snd (main env fs))))"
proof -
  let ?ad = "path_join (base_dir env) (ascii ''audio'')"
  let ?files = "audio_files env ?ad names"
  have "main env fs =
      (fs, [Makedirs ?ad, Listdir ?ad] @
           (Makedirs (path_join (base_dir env) (ascii ''transcripts'')) #
            map (\<lambda>(i, f). Submitted i f) (enumerate 0 ?files)), Inl TypeError)"
    using assms(1,3,4,5) process_files_raises [OF assms(5,2), of ?ad fs]
    by (simp add: main_def Let_def)
  then show ?thesis by (auto simp: exit_status_def)
qed


lemma collected_example:
  "collected (rev example_results) = [(2, ascii ''03. yo''), (0, ascii ''01. hi'')]"
  by code_simp

lemma body_lines_example:
  "body_lines [(2, ascii ''03. yo''), (0, ascii ''01. hi'')] =
     [ascii ''01. hi'' @ [10, 10], ascii ''03. yo'' @ [10, 10]]"
  by (simp add: body_lines_def)

theorem transcript_lines_in_index_order_witness:
  "snd (collect example_run (ascii ''audio'') (map Inr (rev example_results)) [] []) =
     Inr [(2, ascii ''03. yo''), (0, ascii ''01. hi'')] \<and>
   body_lines [(2, ascii ''03. yo''), (0, ascii ''01. hi'')] =
     [ascii ''01. hi'' @ [10, 10], ascii ''03. yo'' @ [10, 10]] \<and>
   map fst (sort_key fst [(2, ascii ''03. yo''), (0 :: int, ascii ''01. hi'')]) = [0, 2]"
proof -
  have d: "distinct (map fst example_results)"
    by (simp add: example_results_def)
  have m: "mset (rev example_results) = mset example_results" by simp
  from transcript_lines_in_index_order [OF d m, of example_run "ascii ''audio''" "[]"]
  show ?thesis
    by (auto simp: collected_example body_lines_example)
qed

end
